theory Spec2Isabelle
  imports Complex_Main "HOL-Library.Sublist"
begin

section \<open>Go strings\<close>

text \<open>
  A Go \<^verbatim>\<open>string\<close> is an immutable sequence of bytes: \<^verbatim>\<open>len(s)\<close> counts bytes,
  \<^verbatim>\<open>s[:n]\<close> slices bytes, and nothing forces the bytes to be valid UTF-8. The model
  is \<^typ>\<open>string\<close> (a list of 8-bit \<^typ>\<open>char\<close>), \<open>length\<close> for \<^verbatim>\<open>len\<close>,
  \<open>take\<close> and \<open>drop\<close> for slices. Go's \<^verbatim>\<open>int\<close> is modelled as \<^typ>\<open>int\<close>: the
  budgets of this program are only compared, subtracted below a bound and used as
  slice ends, so no operation can overflow.
\<close>

definition byte :: "char \<Rightarrow> nat" where
  "byte c = of_char c"

subsection \<open>\<^verbatim>\<open>unicode/utf8.ValidString\<close>\<close>

text \<open>
  The standard library's table \<^verbatim>\<open>first\<close>, read together with \<^verbatim>\<open>acceptRanges\<close>:
  for a leading byte at or above \<^verbatim>\<open>RuneSelf\<close> (0x80) the size of the encoding and
  the range the second byte must lie in; \<open>None\<close> is the table's \<^verbatim>\<open>xx\<close> (an illegal
  leading byte).
\<close>

definition first :: "nat \<Rightarrow> (nat \<times> nat \<times> nat) option" where
  "first b =
     (if b < 0xC2 then None
      else if b \<le> 0xDF then Some (2, 0x80, 0xBF)
      else if b = 0xE0 then Some (3, 0xA0, 0xBF)
      else if b \<le> 0xEC then Some (3, 0x80, 0xBF)
      else if b = 0xED then Some (3, 0x80, 0x9F)
      else if b \<le> 0xEF then Some (3, 0x80, 0xBF)
      else if b = 0xF0 then Some (4, 0x90, 0xBF)
      else if b \<le> 0xF3 then Some (4, 0x80, 0xBF)
      else if b = 0xF4 then Some (4, 0x80, 0x8F)
      else None)"

text \<open>
  \<^verbatim>\<open>ValidString\<close> walks the string rune by rune: an ASCII byte is one rune; any other
  leading byte must be legal, the whole encoding must be present (\<^verbatim>\<open>i+size > n\<close> is
  invalid), the second byte must lie in the accept range and the third and fourth in
  \<^verbatim>\<open>locb..hicb\<close> (0x80..0xBF).
\<close>

fun ValidString :: "string \<Rightarrow> bool" where
  "ValidString [] = True"
| "ValidString (si # rest) =
     (if byte si < 0x80 then ValidString rest
      else (case first (byte si) of
          None \<Rightarrow> False
        | Some (sz, lo, hi) \<Rightarrow>
            if length (si # rest) < sz then False
            else if byte (rest ! 0) < lo \<or> hi < byte (rest ! 0) then False
            else if sz = 2 then ValidString (drop 1 rest)
            else if byte (rest ! 1) < 0x80 \<or> 0xBF < byte (rest ! 1) then False
            else if sz = 3 then ValidString (drop 2 rest)
            else if byte (rest ! 2) < 0x80 \<or> 0xBF < byte (rest ! 2) then False
            else ValidString (drop 3 rest)))"

text \<open>
  The width of the encoding a leading byte announces (\<^verbatim>\<open>x & 7\<close> of the table for a
  multi-byte leader, 1 for ASCII and for an illegal byte).
\<close>

definition runeWidth :: "char \<Rightarrow> nat" where
  "runeWidth c =
     (if byte c < 0x80 then 1
      else (case first (byte c) of None \<Rightarrow> 1 | Some (sz, lo, hi) \<Rightarrow> sz))"

section \<open>Byte-budget truncation\<close>

text \<open>
  \<^verbatim>\<open>truncateToBytes\<close> (the same text in \<^verbatim>\<open>internal/llm/ollama.go\<close> and in the
  summarizer's \<^verbatim>\<open>main.go\<close>):
  \<^verbatim>\<open>
  if maxBytes <= 0 || len(value) <= maxBytes { return value }
  truncated := value[:maxBytes]
  for len(truncated) > 0 && !utf8.ValidString(truncated) {
      truncated = truncated[:len(truncated)-1]
  }
  return truncated
  \<close>
  The loop is \<open>dropInvalidTail\<close>.
\<close>

function dropInvalidTail :: "string \<Rightarrow> string" where
  "dropInvalidTail truncated =
     (if length truncated > 0 \<and> \<not> ValidString truncated
      then dropInvalidTail (butlast truncated)
      else truncated)"
  by pat_completeness auto
termination
  by (relation "measure length") auto

declare dropInvalidTail.simps [simp del]

definition truncateToBytes :: "string \<Rightarrow> int \<Rightarrow> string" where
  "truncateToBytes v maxBytes =
     (if maxBytes \<le> 0 \<or> int (length v) \<le> maxBytes then v
      else dropInvalidTail (take (nat maxBytes) v))"

section \<open>The \<^verbatim>\<open>strings\<close> functions the program calls\<close>

subsection \<open>\<^verbatim>\<open>strings.TrimSpace\<close>\<close>

text \<open>
  \<^verbatim>\<open>TrimSpace\<close> removes the leading and the trailing white space, \<^verbatim>\<open>unicode.IsSpace\<close>
  deciding what white space is: the six ASCII characters tab, line feed, vertical
  tab, form feed, carriage return and space, and the runes U+0085, U+00A0, U+1680,
  U+2000 to U+200A, U+2028, U+2029, U+202F, U+205F and U+3000. \<open>spaceRunes\<close> lists
  their UTF-8 encodings. At the front the library decodes one rune at a time and
  stops at the first that is not white space (a malformed byte decodes to U+FFFD,
  which is not); at the back it decodes the last rune, which is a white-space rune
  exactly when the text ends with one of these encodings, because each of them
  starts with a byte that is not a continuation byte.
\<close>

definition spaceRunes :: "string list" where
  "spaceRunes =
     [[CHR 0x09], [CHR 0x0A], [CHR 0x0B], [CHR 0x0C], [CHR 0x0D], [CHR 0x20],
      [CHR 0xC2, CHR 0x85], [CHR 0xC2, CHR 0xA0],
      [CHR 0xE1, CHR 0x9A, CHR 0x80],
      [CHR 0xE2, CHR 0x80, CHR 0x80], [CHR 0xE2, CHR 0x80, CHR 0x81],
      [CHR 0xE2, CHR 0x80, CHR 0x82], [CHR 0xE2, CHR 0x80, CHR 0x83],
      [CHR 0xE2, CHR 0x80, CHR 0x84], [CHR 0xE2, CHR 0x80, CHR 0x85],
      [CHR 0xE2, CHR 0x80, CHR 0x86], [CHR 0xE2, CHR 0x80, CHR 0x87],
      [CHR 0xE2, CHR 0x80, CHR 0x88], [CHR 0xE2, CHR 0x80, CHR 0x89],
      [CHR 0xE2, CHR 0x80, CHR 0x8A],
      [CHR 0xE2, CHR 0x80, CHR 0xA8], [CHR 0xE2, CHR 0x80, CHR 0xA9],
      [CHR 0xE2, CHR 0x80, CHR 0xAF],
      [CHR 0xE2, CHR 0x81, CHR 0x9F],
      [CHR 0xE3, CHR 0x80, CHR 0x80]]"

text \<open>The width of the white-space rune a text starts (ends) with; 0 when there is none.\<close>

definition leadingSpace :: "string \<Rightarrow> nat" where
  "leadingSpace s = (case find (\<lambda>r. prefix r s) spaceRunes of None \<Rightarrow> 0 | Some r \<Rightarrow> length r)"

definition trailingSpace :: "string \<Rightarrow> nat" where
  "trailingSpace s = (case find (\<lambda>r. suffix r s) spaceRunes of None \<Rightarrow> 0 | Some r \<Rightarrow> length r)"

lemma leadingSpace_le: "leadingSpace s \<le> length s"
  by (auto simp: leadingSpace_def find_Some_iff prefix_length_le split: option.splits)

lemma trailingSpace_le: "trailingSpace s \<le> length s"
  by (auto simp: trailingSpace_def find_Some_iff suffix_length_le split: option.splits)

function TrimLeftSpace :: "string \<Rightarrow> string" where
  "TrimLeftSpace s =
     (if leadingSpace s = 0 then s else TrimLeftSpace (drop (leadingSpace s) s))"
  by pat_completeness auto
termination
proof (relation "measure length")
  fix s :: string
  assume "leadingSpace s \<noteq> 0"
  moreover have "leadingSpace s \<le> length s" by (rule leadingSpace_le)
  ultimately show "(drop (leadingSpace s) s, s) \<in> measure length" by simp
qed simp

function TrimRightSpace :: "string \<Rightarrow> string" where
  "TrimRightSpace s =
     (if trailingSpace s = 0 then s else TrimRightSpace (take (length s - trailingSpace s) s))"
  by pat_completeness auto
termination
proof (relation "measure length")
  fix s :: string
  assume "trailingSpace s \<noteq> 0"
  moreover have "trailingSpace s \<le> length s" by (rule trailingSpace_le)
  ultimately show "(take (length s - trailingSpace s) s, s) \<in> measure length" by simp
qed simp

declare TrimLeftSpace.simps [simp del]
declare TrimRightSpace.simps [simp del]

definition TrimSpace :: "string \<Rightarrow> string" where
  "TrimSpace s = TrimRightSpace (TrimLeftSpace s)"

subsection \<open>\<^verbatim>\<open>strings.ToLower\<close>\<close>

text \<open>
  On a text of ASCII bytes \<^verbatim>\<open>ToLower\<close> adds \<^verbatim>\<open>'a' - 'A'\<close> to each byte in
  \<^verbatim>\<open>'A'..'Z'\<close> (the table \<open>lowerByte\<close>). A text with a byte at or above 0x80 goes
  through \<^verbatim>\<open>unicode.ToLower\<close> rune by rune; the Unicode case tables are not part of
  this program, so that path is the parameter \<open>unicodeLower\<close>.
\<close>

definition lowerByte :: "char \<Rightarrow> char" where
  "lowerByte c =
     (case map_of (zip ''ABCDEFGHIJKLMNOPQRSTUVWXYZ'' ''abcdefghijklmnopqrstuvwxyz'') c of
        None \<Rightarrow> c | Some l \<Rightarrow> l)"

definition ToLower :: "(string \<Rightarrow> string) \<Rightarrow> string \<Rightarrow> string" where
  "ToLower unicodeLower s =
     (if list_all (\<lambda>c. byte c < 0x80) s then map lowerByte s else unicodeLower s)"

subsection \<open>Prefixes, indices and \<^verbatim>\<open>TrimRight\<close>\<close>

definition HasPrefix :: "string \<Rightarrow> string \<Rightarrow> bool" where
  "HasPrefix s pre = prefix pre s"

definition TrimPrefix :: "string \<Rightarrow> string \<Rightarrow> string" where
  "TrimPrefix s pre = (if HasPrefix s pre then drop (length pre) s else s)"

text \<open>\<^verbatim>\<open>strings.Index\<close>: the byte index of the first occurrence, \<open>-1\<close> when there is none.\<close>

fun Index :: "string \<Rightarrow> string \<Rightarrow> int" where
  "Index [] sub = (if sub = [] then 0 else -1)"
| "Index (c # s) sub =
     (if prefix sub (c # s) then 0
      else (let r = Index s sub in if r < 0 then -1 else r + 1))"

text \<open>\<^verbatim>\<open>strings.LastIndex\<close>: the byte index of the last occurrence, \<open>-1\<close> when there is none.\<close>

fun LastIndex :: "string \<Rightarrow> string \<Rightarrow> int" where
  "LastIndex [] sub = (if sub = [] then 0 else -1)"
| "LastIndex (c # s) sub =
     (let r = LastIndex s sub in
      if 0 \<le> r then r + 1 else if prefix sub (c # s) then 0 else -1)"

text \<open>
  \<^verbatim>\<open>strings.TrimRight(s, cutset)\<close> for a cutset of one ASCII byte (the program's only
  use is the cutset \<^verbatim>\<open>"/"\<close>): the trailing bytes equal to it are removed.
\<close>

definition TrimRight :: "string \<Rightarrow> char \<Rightarrow> string" where
  "TrimRight s c = rev (dropWhile (\<lambda>x. x = c) (rev s))"

text \<open>\<^verbatim>\<open>%d\<close>: the decimal digits of a natural number (\<open>Itoa\<close>) and of an integer (\<open>fmtInt\<close>).\<close>

function Itoa :: "nat \<Rightarrow> string" where
  "Itoa n =
     (if n < 10 then [''0123456789'' ! n]
      else Itoa (n div 10) @ [''0123456789'' ! (n mod 10)])"
  by pat_completeness auto
termination
  by (relation "measure id") auto

declare Itoa.simps [simp del]

definition fmtInt :: "int \<Rightarrow> string" where
  "fmtInt i = (if i < 0 then ''-'' @ Itoa (nat (- i)) else Itoa (nat i))"

section \<open>The data model\<close>

text \<open>
  Modelled from the spec: the records \<^verbatim>\<open>EvidenceItem\<close>, \<^verbatim>\<open>EvidenceBundle\<close> and
  \<^verbatim>\<open>Summary\<close> of package \<^verbatim>\<open>internal/types\<close>, whose declarations are not among the
  repository's files; the fields are those of the specification's data model, which
  are also the fields the code reads and writes. A field name carries a short
  prefix of its record, since several records have an \<^verbatim>\<open>IncidentID\<close> or an
  \<^verbatim>\<open>ArtifactPtr\<close>. \<open>any\<close> is a decoded JSON value (Go's \<^verbatim>\<open>any\<close> after
  \<^verbatim>\<open>json.Unmarshal\<close>); a Go map is an association list read with \<open>map_of\<close>. A
  \<^verbatim>\<open>float64\<close> that is a confidence is a \<^typ>\<open>real\<close>: the program only stores it and
  compares it with 0 and 1.
\<close>

datatype any =
    ANil
  | ABool bool
  | ANumber real
  | AString string
  | AArray "any list"
  | AMap "(string \<times> any) list"

record EvidenceItem =
  ei_Kind :: string
  ei_Title :: string
  ei_ArtifactPtr :: string
  ei_ContentType :: string
  ei_Bytes :: int

record EvidenceBundle =
  b_IncidentID :: string
  b_Evidence :: "EvidenceItem list"
  b_NormalizedContext :: "(string \<times> any) list"
  b_CollectedAt :: string

record Summary =
  s_IncidentID :: string
  s_SummaryMarkdown :: string
  s_Highlights :: "string list"
  s_ActionItems :: "string list"
  s_Confidence :: real
  s_Model :: string
  s_ArtifactPtr :: string

section \<open>Package \<^verbatim>\<open>llm\<close>\<close>

record Settings =
  Provider :: string
  OpenAIAPIKey :: string
  OpenAIModel :: string
  OllamaURL :: string
  OllamaModel :: string
  OllamaTemp :: real
  MaxInputBytes :: int
  MaxEvidence :: int
  MaxEvidenceLen :: int

record EvidenceText =
  et_Kind :: string
  et_Title :: string
  et_ArtifactPtr :: string
  et_ContentType :: string
  et_Content :: string

record Input =
  Bundle :: EvidenceBundle
  Evidence :: "EvidenceText list"

record summaryPayload =
  p_SummaryMarkdown :: string
  p_Highlights :: "string list"
  p_ActionItems :: "string list"
  p_Confidence :: real

record ollamaResponse =
  r_Content :: string
  r_Done :: bool
  r_Error :: string

text \<open>
  What the chat exchange of \<^verbatim>\<open>SummarizeOllama\<close> can come to: the request does not
  marshal, the request cannot be built, the HTTP call fails, the body does not
  decode, or a status code arrives with a decoded body.
\<close>

datatype chatOutcome =
    MarshalError string
  | BuildError string
  | RequestError string
  | DecodeError string
  | Response int ollamaResponse

text \<open>
  What package \<^verbatim>\<open>llm\<close> takes from outside the program:
  \<^item> \<open>unicodeLower\<close>, the Unicode path of \<^verbatim>\<open>strings.ToLower\<close>;
  \<^item> \<open>timeNow\<close>, the text of \<^verbatim>\<open>time.Now().UTC().Format(time.RFC3339)\<close>;
  \<^item> \<open>jsonUnmarshal\<close>, \<^verbatim>\<open>json.Unmarshal\<close> into a \<^verbatim>\<open>summaryPayload\<close>: from the text and
    the payload as it stands to the payload as the decoder leaves it and whether
    the error is \<^verbatim>\<open>nil\<close>;
  \<^item> \<open>chat\<close>, the exchange with the Ollama server: from the trimmed model name, the
    base URL, the settings and the input (all that the request is built from) to
    its outcome.
\<close>

record llmEnv =
  unicodeLower :: "string \<Rightarrow> string"
  timeNow :: string
  jsonUnmarshal :: "string \<Rightarrow> summaryPayload \<Rightarrow> summaryPayload \<times> bool"
  chat :: "string \<Rightarrow> string \<Rightarrow> Settings \<Rightarrow> Input \<Rightarrow> chatOutcome"

subsection \<open>\<^verbatim>\<open>SummarizeMock\<close>\<close>

definition SummarizeMock :: "llmEnv \<Rightarrow> Input \<Rightarrow> string \<Rightarrow> Summary" where
  "SummarizeMock E input redactionLevel =
     (let summary = \<lparr>s_IncidentID = b_IncidentID (Bundle input),
                     s_SummaryMarkdown = [], s_Highlights = [], s_ActionItems = [],
                     s_Confidence = 4 / 10, s_Model = ''mock'', s_ArtifactPtr = []\<rparr>;
          redaction = ToLower (unicodeLower E) (TrimSpace redactionLevel)
      in if redaction \<noteq> [] \<and> redaction \<noteq> ''none''
         then summary\<lparr>s_SummaryMarkdown := ''Summary redacted by policy.'',
                      s_Highlights := [''redacted''],
                      s_ActionItems := [''request approval to view full details''],
                      s_Model := ''mock-redacted''\<rparr>
         else (let count = length (b_Evidence (Bundle input));
                   summary1 = summary\<lparr>s_SummaryMarkdown :=
                       ''Incident '' @ b_IncidentID (Bundle input) @ '' summary: collected ''
                       @ Itoa count @ '' evidence item(s) at '' @ timeNow E @ ''.''\<rparr>;
                   summary2 = (if count > 0
                       then summary1\<lparr>s_Highlights := [Itoa count @ '' evidence item(s) collected'']\<rparr>
                       else summary1)
               in summary2\<lparr>s_ActionItems := [''review evidence bundle'', ''confirm next steps'']\<rparr>))"

subsection \<open>\<^verbatim>\<open>SummarizeOpenAI\<close>\<close>

definition SummarizeOpenAI :: "Settings \<Rightarrow> Input \<Rightarrow> string + Summary" where
  "SummarizeOpenAI settings input = Inl ''openai summarizer not configured''"

subsection \<open>\<^verbatim>\<open>parseSummaryJSON\<close>\<close>

definition zeroPayload :: summaryPayload where
  "zeroPayload = \<lparr>p_SummaryMarkdown = [], p_Highlights = [], p_ActionItems = [], p_Confidence = 0\<rparr>"

definition normalizeSummaryPayload :: "summaryPayload \<Rightarrow> summaryPayload" where
  "normalizeSummaryPayload payload =
     (let payload1 = (if p_Confidence payload < 0 then payload\<lparr>p_Confidence := 0\<rparr> else payload)
      in if p_Confidence payload1 > 1 then payload1\<lparr>p_Confidence := 1\<rparr> else payload1)"

text \<open>The fence marker: three grave accents (byte 0x60).\<close>

definition fence :: string where
  "fence = [CHR 0x60, CHR 0x60, CHR 0x60]"

text \<open>
  The text the decoder is given first: the trimmed reply, and when that starts with
  the fence marker, the marker and the rest of its line are dropped, everything from
  the last fence marker on is dropped, and the result is trimmed again.
\<close>

definition stripFence :: "string \<Rightarrow> string" where
  "stripFence raw =
     (let trimmed = TrimSpace raw
      in if HasPrefix trimmed fence
         then (let t1 = TrimPrefix trimmed fence;
                   idx = Index t1 [CHR 0x0A];
                   t2 = (if idx \<ge> 0 then drop (nat (idx + 1)) t1 else t1);
                   fenceAt = LastIndex t2 fence;
                   t3 = (if fenceAt \<ge> 0 then take (nat fenceAt) t2 else t2)
               in TrimSpace t3)
         else trimmed)"

text \<open>
  \<^verbatim>\<open>parseSummaryJSON\<close>: decode the stripped text; when that fails, decode what lies
  between the first opening and the last closing brace, into the same payload
  variable. \<open>None\<close> is the source's \<^verbatim>\<open>(summaryPayload{}, false)\<close>.
\<close>

definition parseSummaryJSON ::
  "(string \<Rightarrow> summaryPayload \<Rightarrow> summaryPayload \<times> bool) \<Rightarrow> string \<Rightarrow> summaryPayload option" where
  "parseSummaryJSON unmarshal raw =
     (let trimmed = stripFence raw
      in (case unmarshal trimmed zeroPayload of
            (payload, True) \<Rightarrow> Some (normalizeSummaryPayload payload)
          | (payload, False) \<Rightarrow>
              (let start = Index trimmed ''{'';
                   stop = LastIndex trimmed ''}''
               in if start \<ge> 0 \<and> stop > start
                  then (case unmarshal (take (nat (stop + 1) - nat start) (drop (nat start) trimmed)) payload of
                          (payload2, True) \<Rightarrow> Some (normalizeSummaryPayload payload2)
                        | (payload2, False) \<Rightarrow> None)
                  else None)))"

subsection \<open>\<^verbatim>\<open>SummarizeOllama\<close>\<close>

text \<open>
  The request (system prompt, user prompt, options) and the HTTP exchange are the
  \<open>chat\<close> of the environment; what the function does with the outcome is the code's.
  An error is its message.
\<close>

definition SummarizeOllama :: "llmEnv \<Rightarrow> Settings \<Rightarrow> Input \<Rightarrow> string + Summary" where
  "SummarizeOllama E settings input =
     (let model = TrimSpace (OllamaModel settings)
      in if model = [] then Inl ''OLLAMA_MODEL is required''
         else (let baseURL = TrimRight (TrimSpace (OllamaURL settings)) (CHR ''/'')
               in if baseURL = [] then Inl ''OLLAMA_URL is required''
                  else (case chat E model baseURL settings input of
                          MarshalError e \<Rightarrow> Inl (''marshal request: '' @ e)
                        | BuildError e \<Rightarrow> Inl (''build request: '' @ e)
                        | RequestError e \<Rightarrow> Inl (''ollama request: '' @ e)
                        | DecodeError e \<Rightarrow> Inl (''decode response: '' @ e)
                        | Response status response \<Rightarrow>
                            if status < 200 \<or> status \<ge> 300
                            then (if r_Error response \<noteq> []
                                  then Inl (''ollama error: '' @ r_Error response)
                                  else Inl (''ollama http '' @ fmtInt status))
                            else if r_Error response \<noteq> []
                            then Inl (''ollama error: '' @ r_Error response)
                            else (let content = TrimSpace (r_Content response)
                                  in if content = [] then Inl ''ollama response empty''
                                     else (let summary = \<lparr>s_IncidentID = b_IncidentID (Bundle input),
                                                 s_SummaryMarkdown = [], s_Highlights = [],
                                                 s_ActionItems = [], s_Confidence = 0,
                                                 s_Model = ''ollama:'' @ model, s_ArtifactPtr = []\<rparr>;
                                               summary1 = (case parseSummaryJSON (jsonUnmarshal E) content of
                                                   Some payload \<Rightarrow> summary\<lparr>
                                                     s_SummaryMarkdown := p_SummaryMarkdown payload,
                                                     s_Highlights := p_Highlights payload,
                                                     s_ActionItems := p_ActionItems payload,
                                                     s_Confidence := p_Confidence payload\<rparr>
                                                 | None \<Rightarrow> summary)
                                           in Inr (if s_SummaryMarkdown summary1 = []
                                                   then summary1\<lparr>s_SummaryMarkdown := content\<rparr>
                                                   else summary1))))))"

subsection \<open>\<^verbatim>\<open>Summarize\<close>\<close>

definition Summarize :: "llmEnv \<Rightarrow> Settings \<Rightarrow> Input \<Rightarrow> string \<Rightarrow> string + Summary" where
  "Summarize E settings input redactionLevel =
     (let redaction = ToLower (unicodeLower E) (TrimSpace redactionLevel)
      in if redaction \<noteq> [] \<and> redaction \<noteq> ''none''
         then Inr (SummarizeMock E input redactionLevel)
         else (let provider = ToLower (unicodeLower E) (TrimSpace (Provider settings))
               in if provider = [] \<or> provider = ''mock''
                  then Inr (SummarizeMock E input redactionLevel)
                  else if provider = ''openai'' then SummarizeOpenAI settings input
                  else if provider = ''ollama'' then SummarizeOllama E settings input
                  else Inl (''unsupported llm provider: '' @ Provider settings)))"

section \<open>The poster (\<^verbatim>\<open>cmd/poster\<close>)\<close>

subsection \<open>Data\<close>

text \<open>
  Modelled from the spec: \<^verbatim>\<open>PostResult\<close> with its optional \<^verbatim>\<open>slack\<close> part,
  \<^verbatim>\<open>IncidentInput\<close> with its source and destination, and \<^verbatim>\<open>PolicyConstraints\<close>,
  declared in packages \<^verbatim>\<open>internal/types\<close> and \<^verbatim>\<open>internal/policyconstraints\<close> that
  are not among the repository's files; the fields are those of the specification's
  data model. \<open>posterInput\<close> is declared in the poster itself.
\<close>

record SlackResult =
  sl_Ok :: bool
  sl_Channel :: string
  sl_TS :: string
  sl_Permalink :: string

record PostResult =
  pr_IncidentID :: string
  pr_Mode :: string
  pr_Slack :: "SlackResult option"
  pr_ArtifactPtr :: string
  pr_PostedAt :: string

record Source =
  src_System :: string
  src_URL :: string

record Destination =
  d_Mode :: string
  d_SlackWebhookURL :: string

record IncidentInput =
  in_IncidentID :: string
  in_Title :: string
  in_Severity :: string
  in_Source :: Source
  in_Raw :: any
  in_Destination :: Destination

record posterInput =
  pi_Incident :: IncidentInput
  pi_Evidence :: EvidenceBundle
  pi_Summary :: Summary

record PolicyConstraints =
  pc_MaxArtifactBytes :: int
  pc_RedactionLevel :: string
  pc_AllowedHosts :: "string list"

text \<open>A job request: \<^verbatim>\<open>Env\<close> is a Go map that may be \<^verbatim>\<open>nil\<close>.\<close>

type_synonym envMap = "(string \<times> string) list option"

record JobRequest =
  jr_JobId :: string
  jr_ContextPtr :: string
  jr_Env :: envMap

datatype JobStatus = JOB_STATUS_SUCCEEDED | JOB_STATUS_FAILED

record JobResult =
  res_JobId :: string
  res_Status :: JobStatus
  res_ResultPtr :: string
  res_WorkerId :: string
  res_ExecutionMs :: int
  res_ArtifactPtrs :: "string list"

text \<open>
  An upload to the artifact store: \<^verbatim>\<open>artifacts.UploadText\<close> (content, content type,
  retention class, metadata, size limit) or \<^verbatim>\<open>artifacts.UploadJSON\<close> (the payload of
  incident and summary, retention class, metadata, size limit).
\<close>

datatype upload =
    UploadText string string string "(string \<times> string) list" int
  | UploadJSON IncidentInput Summary string "(string \<times> string) list" int

subsection \<open>The world outside the handler\<close>

text \<open>
  The state the handler acts on: the idempotency cache (Redis keys to bytes), the
  calls of the webhook sink made so far (URL and message, in order), the uploads
  asked of the artifact store so far, and the values written with
  \<^verbatim>\<open>PutResultJSON\<close> (job id and value, in order). A cache entry is written with the
  expiry \<^verbatim>\<open>cfg.DataTTL\<close>; the model has no clock, so a world holds the entries that
  have not expired.
\<close>

record world =
  cache :: "string \<rightharpoonup> string"
  posts :: "(string \<times> string) list"
  uploads :: "upload list"
  results :: "(string \<times> PostResult) list"

text \<open>
  The pure functions the handler calls whose code is not among the repository's
  files: the Unicode path of \<^verbatim>\<open>strings.ToLower\<close>, \<^verbatim>\<open>json.Marshal\<close> and
  \<^verbatim>\<open>json.Unmarshal\<close> of a \<^verbatim>\<open>PostResult\<close>, and \<^verbatim>\<open>MaxArtifactBytes\<close>, \<^verbatim>\<open>Parse\<close> and
  \<^verbatim>\<open>HostAllowed\<close> of package \<^verbatim>\<open>policyconstraints\<close>. They are parameters of the model.
\<close>

record lib =
  lowerUnicode :: "string \<Rightarrow> string"
  marshalPost :: "PostResult \<Rightarrow> string + string"
  unmarshalPost :: "string \<Rightarrow> string + PostResult"
  MaxArtifactBytes :: "envMap \<Rightarrow> int"
  Parse :: "envMap \<Rightarrow> string + PolicyConstraints"
  HostAllowed :: "PolicyConstraints \<Rightarrow> string \<Rightarrow> string + bool"

text \<open>
  What one invocation meets outside: the configuration, the clock, and the outcome
  of each external call (an error message on the left): reading the job context, a
  failure of the cache read other than \<^verbatim>\<open>redis.Nil\<close>, a failure of the cache write,
  the webhook sink's answer, the artifact store's answer, and the result store's
  answer.
\<close>

record ext =
  cfg_SlackWebhookURL :: string
  cfg_WorkerID :: string
  nowRFC3339 :: string
  elapsedMs :: int
  GetContextJSON :: "string \<Rightarrow> string + posterInput"
  redisGetError :: "string \<Rightarrow> string option"
  redisSetError :: "string \<Rightarrow> string \<Rightarrow> string option"
  PostWebhook :: "string \<Rightarrow> string \<Rightarrow> string + SlackResult option"
  Upload :: "upload \<Rightarrow> string + string"
  PutResultJSON :: "string \<Rightarrow> PostResult \<Rightarrow> string + string"

subsection \<open>\<^verbatim>\<open>getCachedPost\<close>, \<^verbatim>\<open>storeCachedPost\<close>, \<^verbatim>\<open>buildResult\<close>\<close>

text \<open>
  \<^verbatim>\<open>getCachedPost\<close>: an error, a miss (\<open>Inr None\<close>, the source's \<^verbatim>\<open>false\<close>) or the
  decoded entry.
\<close>

definition getCachedPost :: "lib \<Rightarrow> ext \<Rightarrow> world \<Rightarrow> string \<Rightarrow> string + PostResult option" where
  "getCachedPost L E w key =
     (case redisGetError E key of
        Some e \<Rightarrow> Inl e
      | None \<Rightarrow>
          (case cache w key of
             None \<Rightarrow> Inr None
           | Some data \<Rightarrow>
               (case unmarshalPost L data of
                  Inl e \<Rightarrow> Inl e
                | Inr result \<Rightarrow> Inr (Some result))))"

text \<open>\<^verbatim>\<open>storeCachedPost\<close>: the error, if any, and the world after; a write that fails writes nothing.\<close>

definition storeCachedPost :: "lib \<Rightarrow> ext \<Rightarrow> world \<Rightarrow> string \<Rightarrow> PostResult \<Rightarrow> string option \<times> world" where
  "storeCachedPost L E w key result =
     (case marshalPost L result of
        Inl e \<Rightarrow> (Some e, w)
      | Inr data \<Rightarrow>
          (case redisSetError E key data of
             Some e \<Rightarrow> (Some e, w)
           | None \<Rightarrow> (None, w\<lparr>cache := (cache w)(key \<mapsto> data)\<rparr>)))"

definition buildResult :: "ext \<Rightarrow> world \<Rightarrow> JobRequest \<Rightarrow> PostResult \<Rightarrow> (string + JobResult) \<times> world" where
  "buildResult E w req result =
     (case PutResultJSON E (jr_JobId req) result of
        Inl e \<Rightarrow> (Inl e, w)
      | Inr resultPtr \<Rightarrow>
          (Inr \<lparr>res_JobId = jr_JobId req, res_Status = JOB_STATUS_SUCCEEDED,
                res_ResultPtr = resultPtr, res_WorkerId = cfg_WorkerID E,
                res_ExecutionMs = elapsedMs E,
                res_ArtifactPtrs = (if pr_ArtifactPtr result \<noteq> [] then [pr_ArtifactPtr result] else [])\<rparr>,
           w\<lparr>results := results w @ [(jr_JobId req, result)]\<rparr>))"

subsection \<open>The handler\<close>

definition contextPtr :: "JobRequest \<Rightarrow> string" where
  "contextPtr req =
     (case jr_Env req of
        None \<Rightarrow> jr_ContextPtr req
      | Some env \<Rightarrow>
          if jr_ContextPtr req = []
          then (case map_of env ''context_ptr'' of None \<Rightarrow> [] | Some v \<Rightarrow> v)
          else jr_ContextPtr req)"

definition cacheKeyOf :: "posterInput \<Rightarrow> string" where
  "cacheKeyOf input = ''incident-enricher:posted:'' @ in_IncidentID (pi_Incident input)"

text \<open>The webhook the slack mode resolves: the incident's own, else the configured one.\<close>

definition resolveWebhook :: "ext \<Rightarrow> posterInput \<Rightarrow> string" where
  "resolveWebhook E input =
     (let webhook = TrimSpace (d_SlackWebhookURL (in_Destination (pi_Incident input)))
      in if webhook = [] then cfg_SlackWebhookURL E else webhook)"

definition slackMessage :: "posterInput \<Rightarrow> string" where
  "slackMessage input =
     (let message = TrimSpace (s_SummaryMarkdown (pi_Summary input))
      in if message = []
         then ''Incident '' @ in_IncidentID (pi_Incident input) @ '' summary ready''
         else message)"

text \<open>The \<^verbatim>\<open>case "slack"\<close> of the handler's switch: the error or the completed result.\<close>

definition postSlack ::
  "lib \<Rightarrow> ext \<Rightarrow> JobRequest \<Rightarrow> world \<Rightarrow> posterInput \<Rightarrow> PostResult \<Rightarrow> int \<Rightarrow> (string + PostResult) \<times> world" where
  "postSlack L E req w input result maxBytes =
     (let webhook = resolveWebhook E input
      in if webhook = [] then (Inl ''slack webhook url missing'', w)
         else (case Parse L (jr_Env req) of
                 Inl e \<Rightarrow> (Inl e, w)
               | Inr constraints \<Rightarrow>
                   (case HostAllowed L constraints webhook of
                      Inl e \<Rightarrow> (Inl e, w)
                    | Inr allowed \<Rightarrow>
                        if \<not> allowed then (Inl ''webhook host not allowed by policy'', w)
                        else (let message = slackMessage input;
                                  w1 = w\<lparr>posts := posts w @ [(webhook, message)]\<rparr>
                              in case PostWebhook E webhook message of
                                   Inl e \<Rightarrow> (Inl e, w1)
                                 | Inr slackResult \<Rightarrow>
                                     (let up = UploadText message ''text/plain'' ''audit''
                                                 [(''kind'', ''post_payload''),
                                                  (''incident_id'', in_IncidentID (pi_Incident input))]
                                                 maxBytes;
                                          w2 = w1\<lparr>uploads := uploads w1 @ [up]\<rparr>
                                      in case Upload E up of
                                           Inl e \<Rightarrow> (Inl e, w2)
                                         | Inr artifactPtr \<Rightarrow>
                                             (Inr (result\<lparr>pr_Slack := slackResult,
                                                          pr_ArtifactPtr := artifactPtr\<rparr>), w2))))))"

text \<open>The \<^verbatim>\<open>case "artifact"\<close>.\<close>

definition postArtifact ::
  "ext \<Rightarrow> world \<Rightarrow> posterInput \<Rightarrow> PostResult \<Rightarrow> int \<Rightarrow> (string + PostResult) \<times> world" where
  "postArtifact E w input result maxBytes =
     (let up = UploadJSON (pi_Incident input) (pi_Summary input) ''audit''
                 [(''kind'', ''post_payload''), (''incident_id'', in_IncidentID (pi_Incident input))]
                 maxBytes;
          w1 = w\<lparr>uploads := uploads w @ [up]\<rparr>
      in case Upload E up of
           Inl e \<Rightarrow> (Inl e, w1)
         | Inr artifactPtr \<Rightarrow> (Inr (result\<lparr>pr_ArtifactPtr := artifactPtr\<rparr>), w1))"

text \<open>The destination mode the handler switches on.\<close>

definition modeOf :: "lib \<Rightarrow> posterInput \<Rightarrow> string" where
  "modeOf L input =
     (let mode = ToLower (lowerUnicode L) (TrimSpace (d_Mode (in_Destination (pi_Incident input))))
      in if mode = [] then ''artifact'' else mode)"

text \<open>
  The handler: read the input, refuse a blank incident id, return a cached result
  if there is one; else carry out the mode's effect, write the result to the cache
  and build the job result.
\<close>

definition handler :: "lib \<Rightarrow> ext \<Rightarrow> JobRequest \<Rightarrow> world \<Rightarrow> (string + JobResult) \<times> world" where
  "handler L E req w =
     (case GetContextJSON E (contextPtr req) of
        Inl e \<Rightarrow> (Inl e, w)
      | Inr input \<Rightarrow>
          if TrimSpace (in_IncidentID (pi_Incident input)) = [] then (Inl ''missing incident_id'', w)
          else (case getCachedPost L E w (cacheKeyOf input) of
                  Inl e \<Rightarrow> (Inl e, w)
                | Inr (Some cached) \<Rightarrow> buildResult E w req cached
                | Inr None \<Rightarrow>
                    (let mode = modeOf L input;
                         result = \<lparr>pr_IncidentID = in_IncidentID (pi_Incident input),
                                   pr_Mode = mode, pr_Slack = None, pr_ArtifactPtr = [],
                                   pr_PostedAt = nowRFC3339 E\<rparr>;
                         maxBytes = MaxArtifactBytes L (jr_Env req);
                         outcome = (if mode = ''slack'' then postSlack L E req w input result maxBytes
                                 else if mode = ''artifact'' then postArtifact E w input result maxBytes
                                 else (Inl (''unsupported destination mode: '' @ mode), w))
                     in case outcome of
                          (Inl e, w1) \<Rightarrow> (Inl e, w1)
                        | (Inr posted, w1) \<Rightarrow>
                            (case storeCachedPost L E w1 (cacheKeyOf input) posted of
                               (Some e, w2) \<Rightarrow> (Inl e, w2)
                             | (None, w2) \<Rightarrow> buildResult E w2 req posted))))"

section \<open>The summarizer's evidence collection (\<^verbatim>\<open>cmd/summarizer\<close>)\<close>

text \<open>
  What the summarizer's evidence collection takes from outside: the Unicode path of
  \<^verbatim>\<open>strings.ToLower\<close>, the gateway's \<^verbatim>\<open>GetArtifact\<close> (an error, or the content and
  the metadata map), and \<^verbatim>\<open>json.Unmarshal\<close> of a content into a
  \<^verbatim>\<open>map[string]any\<close> (\<open>None\<close> when it returns an error).
\<close>

record sumEnv =
  caseLower :: "string \<Rightarrow> string"
  GetArtifact :: "string \<Rightarrow> string + (string \<times> (string \<times> any) list)"
  unmarshalMap :: "string \<Rightarrow> (string \<times> any) list option"

text \<open>\<^verbatim>\<open>strings.Contains\<close>.\<close>

definition Contains :: "string \<Rightarrow> string \<Rightarrow> bool" where
  "Contains s sub = (Index s sub \<ge> 0)"

text \<open>
  \<^verbatim>\<open>nestedString\<close> follows the path through nested maps and returns the trimmed
  string at its end, or the empty string when a step is not a map, a key is missing
  or the end is not a string; \<open>nestedWalk\<close> is its loop.
\<close>

fun nestedWalk :: "any \<Rightarrow> string list \<Rightarrow> any option" where
  "nestedWalk current [] = Some current"
| "nestedWalk current (key # path) =
     (case current of
        AMap obj \<Rightarrow> (case map_of obj key of None \<Rightarrow> None | Some next \<Rightarrow> nestedWalk next path)
      | _ \<Rightarrow> None)"

definition nestedString :: "(string \<times> any) list \<Rightarrow> string list \<Rightarrow> string" where
  "nestedString payload path =
     (case nestedWalk (AMap payload) path of Some (AString val) \<Rightarrow> TrimSpace val | _ \<Rightarrow> [])"

definition stringField :: "(string \<times> any) list \<Rightarrow> string \<Rightarrow> string" where
  "stringField payload key =
     (case map_of payload key of Some (AString str) \<Rightarrow> TrimSpace str | _ \<Rightarrow> [])"

definition extractEvidenceText :: "sumEnv \<Rightarrow> string \<Rightarrow> string \<Rightarrow> string" where
  "extractEvidenceText E content contentType =
     (let trimmed = TrimSpace content
      in if trimmed = [] then []
         else if Contains (ToLower (caseLower E) contentType) ''json'' \<or> HasPrefix trimmed ''{''
         then (case unmarshalMap E content of
                 None \<Rightarrow> trimmed
               | Some payload \<Rightarrow>
                   if nestedString payload [''raw'', ''message''] \<noteq> []
                   then nestedString payload [''raw'', ''message'']
                   else if nestedString payload [''incident'', ''raw'', ''message''] \<noteq> []
                   then nestedString payload [''incident'', ''raw'', ''message'']
                   else if stringField payload ''message'' \<noteq> []
                   then stringField payload ''message''
                   else trimmed)
         else trimmed)"

text \<open>
  The loop of \<^verbatim>\<open>collectEvidenceText\<close> over the bundle's items, with the list built so
  far and the running byte total: \<^verbatim>\<open>continue\<close> is the recursive call with both
  unchanged, \<^verbatim>\<open>break\<close> returns the list built so far. A failed fetch is logged and
  skipped.
\<close>

fun collectLoop ::
  "sumEnv \<Rightarrow> int \<Rightarrow> int \<Rightarrow> EvidenceItem list \<Rightarrow> EvidenceText list \<Rightarrow> int \<Rightarrow> EvidenceText list" where
  "collectLoop E maxItems maxBytes [] out totalBytes = out"
| "collectLoop E maxItems maxBytes (item # items) out totalBytes =
     (if ei_ArtifactPtr item = [] then collectLoop E maxItems maxBytes items out totalBytes
      else if int (length out) \<ge> maxItems \<or> totalBytes \<ge> maxBytes then out
      else (case GetArtifact E (ei_ArtifactPtr item) of
              Inl err \<Rightarrow> collectLoop E maxItems maxBytes items out totalBytes
            | Inr (content, meta) \<Rightarrow>
                (let contentType =
                       (if ei_ContentType item = []
                        then (case map_of meta ''content_type'' of Some (AString v) \<Rightarrow> v | _ \<Rightarrow> [])
                        else ei_ContentType item);
                     extracted = TrimSpace (extractEvidenceText E content contentType)
                 in if extracted = [] then collectLoop E maxItems maxBytes items out totalBytes
                    else (let remaining = maxBytes - totalBytes
                          in if remaining \<le> 0 then out
                             else (let cut = truncateToBytes extracted remaining
                                   in collectLoop E maxItems maxBytes items
                                        (out @ [\<lparr>et_Kind = ei_Kind item, et_Title = ei_Title item,
                                                 et_ArtifactPtr = ei_ArtifactPtr item,
                                                 et_ContentType = contentType, et_Content = cut\<rparr>])
                                        (totalBytes + int (length cut)))))))"

definition collectEvidenceText :: "sumEnv \<Rightarrow> EvidenceBundle \<Rightarrow> int \<Rightarrow> int \<Rightarrow> EvidenceText list" where
  "collectEvidenceText E bundle maxItems maxBytes =
     collectLoop E (if maxItems \<le> 0 then 4 else maxItems) (if maxBytes \<le> 0 then 32768 else maxBytes)
       (b_Evidence bundle) [] 0"

section \<open>Notions the statements use\<close>

text \<open>A byte that occurs in no white-space rune: trimming stops at it.\<close>

definition nonspace :: "char \<Rightarrow> bool" where
  "nonspace c = list_all (\<lambda>r. c \<notin> set r) spaceRunes"

text \<open>
  What the statements about \<open>parseSummaryJSON\<close> need of the decoder, and what
  \<^verbatim>\<open>json.Unmarshal\<close> into a struct does: a text with no white space around it that
  has a brace in it but does not both start with \<open>{\<close> and end with \<open>}\<close> is not a
  JSON object; it is a syntax error, or an array or a string (a type error for a
  struct), and in each case the decoder returns an error and leaves the payload as
  it was.
\<close>

definition rejectsNonObject :: "(string \<Rightarrow> summaryPayload \<Rightarrow> summaryPayload \<times> bool) \<Rightarrow> bool" where
  "rejectsNonObject unmarshal =
     (\<forall>t payload. TrimSpace t = t \<and> CHR ''{'' \<in> set t \<and> (hd t \<noteq> CHR ''{'' \<or> last t \<noteq> CHR ''}'')
        \<longrightarrow> unmarshal t payload = (payload, False))"

text \<open>
  Notions for the statements about the poster. \<open>codecRoundTrip\<close>: decoding what
  \<^verbatim>\<open>json.Marshal\<close> made of a \<^verbatim>\<open>PostResult\<close> gives the value back. \<open>slackAllowed\<close>: an
  invocation that, on a cache miss, gets as far as the webhook call: the context is
  read, the incident id is not blank, the cache read does not fail, the mode is
  \<open>slack\<close>, a webhook is resolved and the policy allows its host. \<open>slackUpload\<close> and
  \<open>slackPosted\<close>: the audit upload the slack mode asks for, and the result it
  completes. \<open>cacheWriteFails\<close>: \<^verbatim>\<open>storeCachedPost\<close> returns an error.
\<close>

definition codecRoundTrip :: "lib \<Rightarrow> bool" where
  "codecRoundTrip L = (\<forall>r data. marshalPost L r = Inr data \<longrightarrow> unmarshalPost L data = Inr r)"

definition slackAllowed :: "lib \<Rightarrow> ext \<Rightarrow> JobRequest \<Rightarrow> posterInput \<Rightarrow> bool" where
  "slackAllowed L E req input =
     (GetContextJSON E (contextPtr req) = Inr input
      \<and> TrimSpace (in_IncidentID (pi_Incident input)) \<noteq> []
      \<and> redisGetError E (cacheKeyOf input) = None
      \<and> modeOf L input = ''slack''
      \<and> resolveWebhook E input \<noteq> []
      \<and> (case Parse L (jr_Env req) of
            Inl e \<Rightarrow> False
          | Inr constraints \<Rightarrow> HostAllowed L constraints (resolveWebhook E input) = Inr True))"

definition slackUpload :: "lib \<Rightarrow> JobRequest \<Rightarrow> posterInput \<Rightarrow> upload" where
  "slackUpload L req input =
     UploadText (slackMessage input) ''text/plain'' ''audit''
       [(''kind'', ''post_payload''), (''incident_id'', in_IncidentID (pi_Incident input))]
       (MaxArtifactBytes L (jr_Env req))"

definition slackPosted :: "ext \<Rightarrow> posterInput \<Rightarrow> SlackResult option \<Rightarrow> string \<Rightarrow> PostResult" where
  "slackPosted E input slackResult artifactPtr =
     \<lparr>pr_IncidentID = in_IncidentID (pi_Incident input), pr_Mode = ''slack'',
      pr_Slack = slackResult, pr_ArtifactPtr = artifactPtr, pr_PostedAt = nowRFC3339 E\<rparr>"

definition cacheWriteFails :: "lib \<Rightarrow> ext \<Rightarrow> string \<Rightarrow> PostResult \<Rightarrow> bool" where
  "cacheWriteFails L E key posted =
     (case marshalPost L posted of
        Inl e \<Rightarrow> True
      | Inr data \<Rightarrow> redisSetError E key data \<noteq> None)"

text \<open>
  For the evidence collection: the bytes of content a result holds, and what
  identifies an item in the bundle and in the result (kind, title and artifact
  pointer, which the loop copies).
\<close>

definition contentBytes :: "EvidenceText list \<Rightarrow> int" where
  "contentBytes out = sum_list (map (\<lambda>t. int (length (et_Content t))) out)"

definition textKey :: "EvidenceText \<Rightarrow> string \<times> string \<times> string" where
  "textKey t = (et_Kind t, et_Title t, et_ArtifactPtr t)"

definition itemKey :: "EvidenceItem \<Rightarrow> string \<times> string \<times> string" where
  "itemKey i = (ei_Kind i, ei_Title i, ei_ArtifactPtr i)"

section \<open>Sample values for the worked examples\<close>

text \<open>
  \<open>sampleObject\<close> is the JSON text \<^verbatim>\<open>{"summary_md":"a"}\<close>. \<open>sampleUnmarshal\<close> is a
  decoder for the examples: like \<^verbatim>\<open>json.Unmarshal\<close> it decodes \<open>sampleObject\<close> by
  setting the field \<^verbatim>\<open>summary_md\<close> to \<open>a\<close> and leaving the other fields as they
  stand, and it rejects the other texts the examples give it (none of which is JSON),
  leaving the payload untouched.
\<close>

definition sampleObject :: string where
  "sampleObject = ''{'' @ [CHR 0x22] @ ''summary_md'' @ [CHR 0x22] @ '':''
                  @ [CHR 0x22] @ ''a'' @ [CHR 0x22] @ ''}''"

definition sampleUnmarshal :: "string \<Rightarrow> summaryPayload \<Rightarrow> summaryPayload \<times> bool" where
  "sampleUnmarshal text payload =
     (if text = sampleObject then (payload\<lparr>p_SummaryMarkdown := ''a''\<rparr>, True)
      else (payload, False))"

definition sampleReply :: "string \<Rightarrow> string \<Rightarrow> string \<Rightarrow> Settings \<Rightarrow> Input \<Rightarrow> chatOutcome" where
  "sampleReply content model baseURL settings input =
     Response 200 \<lparr>r_Content = content, r_Done = True, r_Error = []\<rparr>"

definition sampleEnv :: "string \<Rightarrow> llmEnv" where
  "sampleEnv content =
     \<lparr>unicodeLower = (\<lambda>s. s), timeNow = ''2024-05-01T10:00:00Z'',
      jsonUnmarshal = sampleUnmarshal, chat = sampleReply content\<rparr>"

definition sampleSettings :: "string \<Rightarrow> Settings" where
  "sampleSettings provider =
     \<lparr>Provider = provider, OpenAIAPIKey = [], OpenAIModel = [],
      OllamaURL = ''http://localhost:11434/'', OllamaModel = ''llama3'', OllamaTemp = 2 / 10,
      MaxInputBytes = 65536, MaxEvidence = 4, MaxEvidenceLen = 32768\<rparr>"

definition sampleInput :: "string \<Rightarrow> Input" where
  "sampleInput content =
     \<lparr>Bundle = \<lparr>b_IncidentID = ''INC-1'',
                 b_Evidence = [\<lparr>ei_Kind = ''log'', ei_Title = ''app log'', ei_ArtifactPtr = ''art-1'',
                                ei_ContentType = ''text/plain'', ei_Bytes = int (length content)\<rparr>],
                 b_NormalizedContext = [], b_CollectedAt = ''2024-05-01T09:59:00Z''\<rparr>,
      Evidence = [\<lparr>et_Kind = ''log'', et_Title = ''app log'', et_ArtifactPtr = ''art-1'',
                   et_ContentType = ''text/plain'', et_Content = content\<rparr>]\<rparr>"

text \<open>
  A poster input for incident \<open>INC-1\<close> in slack mode with the given webhook, and the
  worlds' parameters: a codec that knows the one result the examples post (its
  encoding stands for the JSON text), a policy that allows the host
  \<open>hooks.slack.com\<close>, a context store that holds the input under \<open>ctx-1\<close>, a sink
  and stores that answer.
\<close>

definition samplePosterInput :: "string \<Rightarrow> posterInput" where
  "samplePosterInput webhook =
     \<lparr>pi_Incident = \<lparr>in_IncidentID = ''INC-1'', in_Title = ''disk full'', in_Severity = ''high'',
                      in_Source = \<lparr>src_System = ''pager'', src_URL = []\<rparr>, in_Raw = ANil,
                      in_Destination = \<lparr>d_Mode = ''Slack'', d_SlackWebhookURL = webhook\<rparr>\<rparr>,
      pi_Evidence = Bundle (sampleInput ''text''),
      pi_Summary = \<lparr>s_IncidentID = ''INC-1'', s_SummaryMarkdown = '' Disk is full. '',
                     s_Highlights = [], s_ActionItems = [], s_Confidence = 4 / 10,
                     s_Model = ''mock'', s_ArtifactPtr = ''art-1''\<rparr>\<rparr>"

definition samplePosted :: PostResult where
  "samplePosted =
     \<lparr>pr_IncidentID = ''INC-1'', pr_Mode = ''slack'',
      pr_Slack = Some \<lparr>sl_Ok = True, sl_Channel = ''ops'', sl_TS = ''1'', sl_Permalink = []\<rparr>,
      pr_ArtifactPtr = ''art-9'', pr_PostedAt = ''2024-05-01T10:00:00Z''\<rparr>"

definition sampleLib :: lib where
  "sampleLib =
     \<lparr>lowerUnicode = (\<lambda>s. s),
      marshalPost = (\<lambda>r. if r = samplePosted then Inr ''posted INC-1'' else Inl ''unsupported value''),
      unmarshalPost = (\<lambda>data. if data = ''posted INC-1'' then Inr samplePosted else Inl ''bad entry''),
      MaxArtifactBytes = (\<lambda>env. 1048576),
      Parse = (\<lambda>env. Inr \<lparr>pc_MaxArtifactBytes = 1048576, pc_RedactionLevel = [],
                            pc_AllowedHosts = [''hooks.slack.com'']\<rparr>),
      HostAllowed = (\<lambda>constraints url.
         Inr (list_ex (\<lambda>host. prefix (''https://'' @ host @ ''/'') url) (pc_AllowedHosts constraints)))\<rparr>"

definition sampleExt :: "string \<Rightarrow> (upload \<Rightarrow> string + string) \<Rightarrow> ext" where
  "sampleExt webhook store =
     \<lparr>cfg_SlackWebhookURL = [], cfg_WorkerID = ''poster-local'',
      nowRFC3339 = ''2024-05-01T10:00:00Z'', elapsedMs = 12,
      GetContextJSON = (\<lambda>ptr. if ptr = ''ctx-1'' then Inr (samplePosterInput webhook) else Inl ''no context''),
      redisGetError = (\<lambda>key. None),
      redisSetError = (\<lambda>key data. None),
      PostWebhook = (\<lambda>url message.
         Inr (Some \<lparr>sl_Ok = True, sl_Channel = ''ops'', sl_TS = ''1'', sl_Permalink = []\<rparr>)),
      Upload = store,
      PutResultJSON = (\<lambda>job result. Inr (''res:'' @ job))\<rparr>"

definition sampleRequest :: "string \<Rightarrow> JobRequest" where
  "sampleRequest job = \<lparr>jr_JobId = job, jr_ContextPtr = [], jr_Env = Some [(''context_ptr'', ''ctx-1'')]\<rparr>"

definition emptyWorld :: world where
  "emptyWorld = \<lparr>cache = Map.empty, posts = [], uploads = [], results = []\<rparr>"

definition sampleHook :: string where
  "sampleHook = ''https://hooks.slack.com/services/T1''"

definition sampleWorldAfterPost :: world where
  "sampleWorldAfterPost =
     \<lparr>cache = [''incident-enricher:posted:INC-1'' \<mapsto> ''posted INC-1''],
      posts = [(sampleHook, ''Disk is full.'')],
      uploads = [UploadText ''Disk is full.'' ''text/plain'' ''audit''
                   [(''kind'', ''post_payload''), (''incident_id'', ''INC-1'')] 1048576],
      results = [(''job-1'', samplePosted)]\<rparr>"

text \<open>
  An artifact store in which every artifact is \<open>n\<close> bytes of plain text, and a
  bundle of \<open>k\<close> items.
\<close>

definition sampleSumEnv :: "nat \<Rightarrow> sumEnv" where
  "sampleSumEnv n =
     \<lparr>caseLower = (\<lambda>s. s),
      GetArtifact = (\<lambda>ptr. Inr (replicate n (CHR ''x''), [(''content_type'', AString ''text/plain'')])),
      unmarshalMap = (\<lambda>content. None)\<rparr>"

definition sampleBundle :: "nat \<Rightarrow> EvidenceBundle" where
  "sampleBundle k =
     \<lparr>b_IncidentID = ''INC-1'',
      b_Evidence = map (\<lambda>i. \<lparr>ei_Kind = ''log'', ei_Title = ''log '' @ Itoa i,
                               ei_ArtifactPtr = ''art-'' @ Itoa i, ei_ContentType = [],
                               ei_Bytes = 1000\<rparr>) [0..<k],
      b_NormalizedContext = [], b_CollectedAt = ''2024-05-01T09:59:00Z''\<rparr>"

section \<open>Properties of the truncation\<close>

lemma dropInvalidTail_valid: "ValidString (dropInvalidTail t)"
proof (induction t rule: dropInvalidTail.induct)
  case (1 t)
  show ?case
  proof (cases "length t > 0 \<and> \<not> ValidString t")
    case True
    with 1 show ?thesis by (subst dropInvalidTail.simps) simp
  next
    case False
    then have "ValidString t" by (cases t) auto
    with False show ?thesis by (subst dropInvalidTail.simps) auto
  qed
qed

lemma dropInvalidTail_prefix: "prefix (dropInvalidTail t) t"
proof (induction t rule: dropInvalidTail.induct)
  case (1 t)
  show ?case
  proof (cases "length t > 0 \<and> \<not> ValidString t")
    case True
    with 1 have "prefix (dropInvalidTail (butlast t)) (butlast t)" by simp
    moreover have "prefix (butlast t) t" by (simp add: prefixeq_butlast)
    ultimately have "prefix (dropInvalidTail (butlast t)) t"
      using prefix_order.order_trans by blast
    with True show ?thesis by (subst dropInvalidTail.simps) simp
  next
    case False
    then show ?thesis by (subst dropInvalidTail.simps) auto
  qed
qed

lemma dropInvalidTail_longest:
  "prefix p t \<Longrightarrow> ValidString p \<Longrightarrow> length p \<le> length (dropInvalidTail t)"
proof (induction t rule: dropInvalidTail.induct)
  case (1 t)
  show ?case
  proof (cases "length t > 0 \<and> \<not> ValidString t")
    case True
    with "1.prems" have "p \<noteq> t" by auto
    with "1.prems"(1) have "strict_prefix p t" by (simp add: strict_prefix_def)
    moreover from True have "t = butlast t @ [last t]" by simp
    ultimately have "prefix p (butlast t)"
      by (metis prefix_snoc strict_prefix_def)
    with 1 True have "length p \<le> length (dropInvalidTail (butlast t))" by simp
    with True show ?thesis by (subst dropInvalidTail.simps) simp
  next
    case False
    from "1.prems"(1) have "length p \<le> length t" by (rule prefix_length_le)
    with False show ?thesis by (subst dropInvalidTail.simps) auto
  qed
qed

lemma dropInvalidTail_id: "ValidString t \<Longrightarrow> dropInvalidTail t = t"
  by (subst dropInvalidTail.simps) simp

lemma truncateToBytes_prefix: "prefix (truncateToBytes s b) s"
proof -
  have "prefix (dropInvalidTail (take (nat b) s)) (take (nat b) s)"
    by (rule dropInvalidTail_prefix)
  moreover have "prefix (take (nat b) s) s" by (rule take_is_prefix)
  ultimately have "prefix (dropInvalidTail (take (nat b) s)) s"
    using prefix_order.order_trans by blast
  then show ?thesis by (simp add: truncateToBytes_def)
qed

lemma truncateToBytes_length: "0 < b \<Longrightarrow> int (length (truncateToBytes s b)) \<le> b"
proof -
  assume b: "0 < b"
  have "length (dropInvalidTail (take (nat b) s)) \<le> length (take (nat b) s)"
    using dropInvalidTail_prefix prefix_length_le by blast
  then have "length (dropInvalidTail (take (nat b) s)) \<le> nat b" by simp
  then have "int (length (dropInvalidTail (take (nat b) s))) \<le> b" using b by linarith
  then show ?thesis using b by (simp add: truncateToBytes_def)
qed

lemma short_prefix_invalid:
  assumes v: "ValidString (c # rest)" and k: "0 < k" "k < runeWidth c"
  shows "\<not> ValidString (take k (c # rest))"
proof -
  from k have nonascii: "\<not> byte c < 0x80"
    by (auto simp: runeWidth_def split: if_splits)
  with v obtain sz lo hi where f: "first (byte c) = Some (sz, lo, hi)"
    by (cases "first (byte c)") auto
  from k nonascii f have ksz: "k < sz" by (simp add: runeWidth_def)
  from k obtain k' where k': "k = Suc k'" by (cases k) auto
  have "length (c # take k' rest) \<le> k" using k' by simp
  with ksz have "length (c # take k' rest) < sz" by simp
  with nonascii f have "\<not> ValidString (c # take k' rest)" by simp
  then show ?thesis by (simp add: k')
qed

lemma truncateToBytes_valid:
  "ValidString s \<or> (0 < b \<and> b < int (length s)) \<Longrightarrow> ValidString (truncateToBytes s b)"
  by (auto simp: truncateToBytes_def dropInvalidTail_valid)

lemma truncateToBytes_longest:
  assumes cut: "\<not> (b \<le> 0 \<or> int (length s) \<le> b)"
    and p: "prefix p s" "int (length p) \<le> b" "ValidString p"
  shows "length p \<le> length (truncateToBytes s b)"
proof -
  from p(2) have "length p \<le> nat b" by simp
  with p(1) have "prefix p (take (nat b) s)"
    by (metis prefix_def append_eq_conv_conj min.absorb2 take_append take_all_iff
        append_take_drop_id take_is_prefix prefix_length_prefix length_take min.cobounded2)
  then have "length p \<le> length (dropInvalidTail (take (nat b) s))"
    using p(3) by (rule dropInvalidTail_longest)
  with cut show ?thesis by (simp add: truncateToBytes_def)
qed

lemma truncateToBytes_narrow:
  assumes v: "ValidString s" and ne: "s \<noteq> []"
    and b: "0 < b" "b < int (runeWidth (hd s))"
  shows "truncateToBytes s b = []"
proof (rule ccontr)
  assume nonempty: "truncateToBytes s b \<noteq> []"
  from ne obtain c rest where s: "s = c # rest" by (cases s) auto
  define r where "r = truncateToBytes s b"
  have pre: "prefix r s" unfolding r_def by (rule truncateToBytes_prefix)
  have len: "int (length r) \<le> b" unfolding r_def using b(1) by (rule truncateToBytes_length)
  have val: "ValidString r" unfolding r_def using v by (simp add: truncateToBytes_valid)
  from pre have r: "r = take (length r) s"
    by (metis prefix_def append_eq_conv_conj)
  from nonempty have pos: "0 < length r" by (simp add: r_def)
  from len b(2) s have "length r < runeWidth c" by simp
  with v s pos have "\<not> ValidString (take (length r) (c # rest))"
    by (intro short_prefix_invalid) auto
  with r s val show False by simp
qed

text \<open>
  \<^bold>\<open>C5.\<close> For a valid UTF-8 string \<open>s\<close> and a budget \<open>b\<close>: when \<open>b\<close> is non-positive
  or \<open>s\<close> fits in \<open>b\<close> bytes the result is \<open>s\<close>; otherwise the result is a prefix of
  \<open>s\<close> of at most \<open>b\<close> bytes that is valid UTF-8 and is at least as long as every
  other such prefix; and a positive budget below the encoded width of the first
  character yields the empty string.
\<close>

theorem truncateToBytes_longest_valid_prefix:
  assumes "ValidString s"
  shows "(b \<le> 0 \<or> int (length s) \<le> b \<longrightarrow> truncateToBytes s b = s)
    \<and> (\<not> (b \<le> 0 \<or> int (length s) \<le> b) \<longrightarrow>
          prefix (truncateToBytes s b) s
        \<and> int (length (truncateToBytes s b)) \<le> b
        \<and> ValidString (truncateToBytes s b)
        \<and> (\<forall>p. prefix p s \<and> int (length p) \<le> b \<and> ValidString p
               \<longrightarrow> length p \<le> length (truncateToBytes s b)))
    \<and> (s \<noteq> [] \<and> 0 < b \<and> b < int (runeWidth (hd s)) \<longrightarrow> truncateToBytes s b = [])"
proof (intro conjI impI allI)
  assume "b \<le> 0 \<or> int (length s) \<le> b"
  then show "truncateToBytes s b = s" by (auto simp: truncateToBytes_def)
next
  show "prefix (truncateToBytes s b) s" by (rule truncateToBytes_prefix)
next
  assume "\<not> (b \<le> 0 \<or> int (length s) \<le> b)"
  then show "int (length (truncateToBytes s b)) \<le> b"
    by (intro truncateToBytes_length) simp
next
  show "ValidString (truncateToBytes s b)"
    using assms by (simp add: truncateToBytes_valid)
next
  fix p
  assume "\<not> (b \<le> 0 \<or> int (length s) \<le> b)"
    and "prefix p s \<and> int (length p) \<le> b \<and> ValidString p"
  then show "length p \<le> length (truncateToBytes s b)"
    by (intro truncateToBytes_longest) auto
next
  assume "s \<noteq> [] \<and> 0 < b \<and> b < int (runeWidth (hd s))"
  with assms show "truncateToBytes s b = []"
    by (intro truncateToBytes_narrow) auto
qed

text \<open>
  The witness: \<open>[0xC3, 0xA9, 0x61]\<close> is the UTF-8 text of e-acute followed by \<open>a\<close>.
  A budget of one byte is narrower than the two-byte first character, so nothing is
  kept; a budget of two bytes keeps exactly the first character.
\<close>

theorem truncateToBytes_longest_valid_prefix_witness:
  "ValidString [CHR 0xC3, CHR 0xA9, CHR ''a'']
   \<and> truncateToBytes [CHR 0xC3, CHR 0xA9, CHR ''a''] 1 = []
   \<and> truncateToBytes [CHR 0xC3, CHR 0xA9, CHR ''a''] 0 = [CHR 0xC3, CHR 0xA9, CHR ''a'']
   \<and> ValidString (truncateToBytes [CHR 0xC3, CHR 0xA9, CHR ''a''] 2)
   \<and> length [CHR 0xC3, CHR 0xA9] \<le> length (truncateToBytes [CHR 0xC3, CHR 0xA9, CHR ''a''] 2)"
proof -
  let ?s = "[CHR 0xC3, CHR 0xA9, CHR ''a'']"
  have v: "ValidString ?s" by (simp add: byte_def first_def)
  have v2: "ValidString [CHR 0xC3, CHR 0xA9]" by (simp add: byte_def first_def)
  have w: "(1::int) < int (runeWidth (hd ?s))" by (simp add: runeWidth_def byte_def first_def)
  from truncateToBytes_longest_valid_prefix [OF v, of 1] w
  have a: "truncateToBytes ?s 1 = []" by simp
  from truncateToBytes_longest_valid_prefix [OF v, of 0]
  have b: "truncateToBytes ?s 0 = ?s" by simp
  from truncateToBytes_longest_valid_prefix [OF v, of 2]
  have c: "ValidString (truncateToBytes ?s 2)" by simp
  from truncateToBytes_longest_valid_prefix [OF v, of 2]
  have "\<forall>p. prefix p ?s \<and> int (length p) \<le> 2 \<and> ValidString p
          \<longrightarrow> length p \<le> length (truncateToBytes ?s 2)" by simp
  then have "prefix [CHR 0xC3, CHR 0xA9] ?s \<and> int (length [CHR 0xC3, CHR 0xA9]) \<le> 2
      \<and> ValidString [CHR 0xC3, CHR 0xA9]
      \<longrightarrow> length [CHR 0xC3, CHR 0xA9] \<le> length (truncateToBytes ?s 2)" by (rule spec)
  with v2 have d: "length [CHR 0xC3, CHR 0xA9] \<le> length (truncateToBytes ?s 2)" by simp
  from v a b c d show ?thesis by blast
qed

text \<open>
  \<^bold>\<open>C4\<close> as the code has it. A budget \<open>b \<le> 0\<close> is the code's "no limit" (the guard
  \<^verbatim>\<open>maxBytes <= 0\<close> returns the value unchanged), so the length bound holds for
  \<open>b > 0\<close> only; and a string that fits is returned as it is, valid or not, so the
  result is valid UTF-8 when the input is, or when the input is longer than a
  positive budget (the loop then trims to a valid prefix).
\<close>

theorem truncateToBytes_within_budget:
  "(0 < b \<longrightarrow> int (length (truncateToBytes s b)) \<le> b)
   \<and> (ValidString s \<or> (0 < b \<and> b < int (length s)) \<longrightarrow> ValidString (truncateToBytes s b))
   \<and> (b \<le> 0 \<or> int (length s) \<le> b \<longrightarrow> truncateToBytes s b = s)"
  by (auto simp: truncateToBytes_length truncateToBytes_valid)
     (auto simp: truncateToBytes_def)

theorem truncateToBytes_within_budget_witness:
  "int (length (truncateToBytes [CHR ''a'', CHR 0xFF, CHR ''b''] 2)) \<le> 2
   \<and> ValidString (truncateToBytes [CHR ''a'', CHR 0xFF, CHR ''b''] 2)
   \<and> truncateToBytes [CHR ''a'', CHR 0xFF, CHR ''b''] 3 = [CHR ''a'', CHR 0xFF, CHR ''b'']"
  using truncateToBytes_within_budget [of 2 "[CHR ''a'', CHR 0xFF, CHR ''b'']"]
    truncateToBytes_within_budget [of 3 "[CHR ''a'', CHR 0xFF, CHR ''b'']"]
  by simp

text \<open>
  The claim as stated fails at budget 0 (the one-byte string \<open>a\<close> comes back whole,
  one byte over a budget of zero) and at a string that is not valid UTF-8 but fits
  its budget (the lone byte 0xFF comes back as it is).
\<close>

theorem truncateToBytes_within_budget_counterexample:
  "\<not> int (length (truncateToBytes ''a'' 0)) \<le> 0
   \<and> \<not> ValidString (truncateToBytes [CHR 0xFF] 1)"
  by (simp add: truncateToBytes_def byte_def first_def)

section \<open>Properties of trimming and searching\<close>

lemma spaceRunes_nonempty: "r \<in> set spaceRunes \<Longrightarrow> r \<noteq> []"
  by (auto simp: spaceRunes_def)

lemma nonspace_notin: "nonspace c \<Longrightarrow> r \<in> set spaceRunes \<Longrightarrow> c \<notin> set r"
  by (simp add: nonspace_def list_all_iff)

lemma leadingSpace_pos:
  assumes "leadingSpace s \<noteq> 0"
  obtains r where "r \<in> set spaceRunes" "prefix r s" "length r = leadingSpace s"
proof -
  from assms obtain r where f: "find (\<lambda>r. prefix r s) spaceRunes = Some r"
    by (auto simp: leadingSpace_def split: option.splits)
  then have "r \<in> set spaceRunes" "prefix r s"
    by (auto simp: find_Some_iff)
  moreover from f have "length r = leadingSpace s" by (simp add: leadingSpace_def)
  ultimately show ?thesis by (rule that)
qed

lemma trailingSpace_pos:
  assumes "trailingSpace s \<noteq> 0"
  obtains r where "r \<in> set spaceRunes" "suffix r s" "length r = trailingSpace s"
proof -
  from assms obtain r where f: "find (\<lambda>r. suffix r s) spaceRunes = Some r"
    by (auto simp: trailingSpace_def split: option.splits)
  then have "r \<in> set spaceRunes" "suffix r s"
    by (auto simp: find_Some_iff)
  moreover from f have "length r = trailingSpace s" by (simp add: trailingSpace_def)
  ultimately show ?thesis by (rule that)
qed

lemma leadingSpace_zero_iff: "leadingSpace s = 0 \<longleftrightarrow> (\<forall>r \<in> set spaceRunes. \<not> prefix r s)"
proof
  assume "leadingSpace s = 0"
  have "find (\<lambda>r. prefix r s) spaceRunes = None"
  proof (cases "find (\<lambda>r. prefix r s) spaceRunes")
    case (Some r)
    then have "r \<in> set spaceRunes" by (auto simp: find_Some_iff)
    then have "r \<noteq> []" by (rule spaceRunes_nonempty)
    with Some \<open>leadingSpace s = 0\<close> show ?thesis by (simp add: leadingSpace_def)
  qed simp
  then show "\<forall>r \<in> set spaceRunes. \<not> prefix r s" by (simp add: find_None_iff)
next
  assume "\<forall>r \<in> set spaceRunes. \<not> prefix r s"
  then have "find (\<lambda>r. prefix r s) spaceRunes = None" by (simp add: find_None_iff)
  then show "leadingSpace s = 0" by (simp add: leadingSpace_def)
qed

lemma trailingSpace_zero_iff: "trailingSpace s = 0 \<longleftrightarrow> (\<forall>r \<in> set spaceRunes. \<not> suffix r s)"
proof
  assume "trailingSpace s = 0"
  have "find (\<lambda>r. suffix r s) spaceRunes = None"
  proof (cases "find (\<lambda>r. suffix r s) spaceRunes")
    case (Some r)
    then have "r \<in> set spaceRunes" by (auto simp: find_Some_iff)
    then have "r \<noteq> []" by (rule spaceRunes_nonempty)
    with Some \<open>trailingSpace s = 0\<close> show ?thesis by (simp add: trailingSpace_def)
  qed simp
  then show "\<forall>r \<in> set spaceRunes. \<not> suffix r s" by (simp add: find_None_iff)
next
  assume "\<forall>r \<in> set spaceRunes. \<not> suffix r s"
  then have "find (\<lambda>r. suffix r s) spaceRunes = None" by (simp add: find_None_iff)
  then show "trailingSpace s = 0" by (simp add: trailingSpace_def)
qed

lemma leadingSpace_nonspace: "nonspace c \<Longrightarrow> leadingSpace (c # s) = 0"
proof -
  assume c: "nonspace c"
  have "\<not> prefix r (c # s)" if "r \<in> set spaceRunes" for r
  proof
    assume "prefix r (c # s)"
    moreover from that have "r \<noteq> []" by (rule spaceRunes_nonempty)
    ultimately have "c \<in> set r" by (cases r) auto
    with c that show False by (simp add: nonspace_notin)
  qed
  then show ?thesis by (simp add: leadingSpace_zero_iff)
qed

lemma trailingSpace_nonspace: "nonspace c \<Longrightarrow> trailingSpace (s @ [c]) = 0"
proof -
  assume c: "nonspace c"
  have "\<not> suffix r (s @ [c])" if "r \<in> set spaceRunes" for r
  proof
    assume "suffix r (s @ [c])"
    moreover from that have "r \<noteq> []" by (rule spaceRunes_nonempty)
    ultimately have "c \<in> set r" by (auto simp: suffix_snoc)
    with c that show False by (simp add: nonspace_notin)
  qed
  then show ?thesis by (simp add: trailingSpace_zero_iff)
qed

lemma TrimLeftSpace_keeps:
  assumes c: "nonspace c"
  shows "\<exists>pre'. suffix pre' pre \<and> TrimLeftSpace (pre @ c # rest) = pre' @ c # rest
           \<and> leadingSpace (pre' @ c # rest) = 0"
proof (induction "pre @ c # rest" arbitrary: pre rule: TrimLeftSpace.induct)
  case 1
  show ?case
  proof (cases "leadingSpace (pre @ c # rest) = 0")
    case True
    then have "TrimLeftSpace (pre @ c # rest) = pre @ c # rest"
      by (subst TrimLeftSpace.simps) simp
    with True show ?thesis by (intro exI [of _ pre]) simp
  next
    case False
    then obtain r where r: "r \<in> set spaceRunes" "prefix r (pre @ c # rest)"
        "length r = leadingSpace (pre @ c # rest)"
      by (rule leadingSpace_pos)
    from c r(1) have "c \<notin> set r" by (rule nonspace_notin)
    with r(2) have "prefix r pre"
      by (auto simp: prefix_append prefix_Cons)
    then have le: "length r \<le> length pre" by (rule prefix_length_le)
    with r(3) have d: "drop (leadingSpace (pre @ c # rest)) (pre @ c # rest)
        = drop (length r) pre @ c # rest" by simp
    from 1 [OF False d] obtain pre' where p: "suffix pre' (drop (length r) pre)"
        "TrimLeftSpace (drop (length r) pre @ c # rest) = pre' @ c # rest"
        "leadingSpace (pre' @ c # rest) = 0" by blast
    from p(1) have "suffix pre' pre" by (meson suffix_drop suffix_order.order_trans)
    moreover from False d p(2) have "TrimLeftSpace (pre @ c # rest) = pre' @ c # rest"
      by (subst TrimLeftSpace.simps) simp
    ultimately show ?thesis using p(3) by blast
  qed
qed

lemma TrimRightSpace_keeps:
  assumes c: "nonspace c"
  shows "\<exists>post'. prefix post' post \<and> TrimRightSpace (front @ c # post) = front @ c # post'
           \<and> trailingSpace (front @ c # post') = 0"
proof (induction "front @ c # post" arbitrary: post rule: TrimRightSpace.induct)
  case 1
  show ?case
  proof (cases "trailingSpace (front @ c # post) = 0")
    case True
    then have "TrimRightSpace (front @ c # post) = front @ c # post"
      by (subst TrimRightSpace.simps) simp
    with True show ?thesis by (intro exI [of _ post]) simp
  next
    case False
    then obtain r where r: "r \<in> set spaceRunes" "suffix r (front @ c # post)"
        "length r = trailingSpace (front @ c # post)"
      by (rule trailingSpace_pos)
    from c r(1) have cr: "c \<notin> set r" by (rule nonspace_notin)
    from r(2) have "suffix r ((front @ [c]) @ post)" by simp
    then have "suffix r post \<or> (\<exists>us. r = us @ post \<and> suffix us (front @ [c]))"
      unfolding suffix_append by blast
    with cr have "suffix r post"
      by (auto simp: suffix_snoc)
    then have le: "length r \<le> length post" by (rule suffix_length_le)
    with r(3) have d: "take (length (front @ c # post) - trailingSpace (front @ c # post)) (front @ c # post)
        = front @ c # take (length post - length r) post" by (simp add: Suc_diff_le)
    from 1 [OF False d] obtain post' where p: "prefix post' (take (length post - length r) post)"
        "TrimRightSpace (front @ c # take (length post - length r) post) = front @ c # post'"
        "trailingSpace (front @ c # post') = 0" by blast
    from p(1) have "prefix post' post" by (meson take_is_prefix prefix_order.order_trans)
    moreover from False d p(2) have "TrimRightSpace (front @ c # post) = front @ c # post'"
      by (subst TrimRightSpace.simps) simp
    ultimately show ?thesis using p(3) by blast
  qed
qed

lemma nonspace_braces: "nonspace (CHR ''{'')" "nonspace (CHR ''}'')" "nonspace (CHR 0x60)"
  by (simp_all add: nonspace_def spaceRunes_def)

lemma TrimSpace_fixed: "leadingSpace s = 0 \<Longrightarrow> trailingSpace s = 0 \<Longrightarrow> TrimSpace s = s"
  by (simp add: TrimSpace_def TrimLeftSpace.simps TrimRightSpace.simps)

lemma leadingSpace_prefix_mono:
  assumes "prefix t s" "leadingSpace s = 0"
  shows "leadingSpace t = 0"
proof -
  have "\<not> prefix r t" if "r \<in> set spaceRunes" for r
  proof
    assume "prefix r t"
    with assms(1) have "prefix r s" using prefix_order.order_trans by blast
    with that assms(2) show False by (simp add: leadingSpace_zero_iff)
  qed
  then show ?thesis by (simp add: leadingSpace_zero_iff)
qed

lemma TrimSpace_embedded:
  assumes a: "nonspace a" and b: "nonspace b"
  shows "\<exists>pre' post'. suffix pre' pre \<and> prefix post' post
           \<and> TrimSpace (pre @ a # mid @ b # post) = pre' @ a # mid @ b # post'
           \<and> TrimSpace (pre' @ a # mid @ b # post') = pre' @ a # mid @ b # post'"
proof -
  from TrimLeftSpace_keeps [OF a, of pre "mid @ b # post"]
  obtain pre' where l: "suffix pre' pre"
      "TrimLeftSpace (pre @ a # mid @ b # post) = pre' @ a # mid @ b # post"
      "leadingSpace (pre' @ a # mid @ b # post) = 0" by blast
  from TrimRightSpace_keeps [OF b, of post "pre' @ a # mid"]
  obtain post' where r: "prefix post' post"
      "TrimRightSpace (pre' @ a # mid @ b # post) = pre' @ a # mid @ b # post'"
      "trailingSpace (pre' @ a # mid @ b # post') = 0" by auto
  from l(2) r(2) have t: "TrimSpace (pre @ a # mid @ b # post) = pre' @ a # mid @ b # post'"
    by (simp add: TrimSpace_def)
  from r(1) have "prefix (pre' @ a # mid @ b # post') (pre' @ a # mid @ b # post)" by simp
  then have "leadingSpace (pre' @ a # mid @ b # post') = 0"
    using l(3) by (rule leadingSpace_prefix_mono)
  with r(3) have "TrimSpace (pre' @ a # mid @ b # post') = pre' @ a # mid @ b # post'"
    by (simp add: TrimSpace_fixed)
  with l(1) r(1) t show ?thesis by blast
qed

lemma TrimSpace_nonspace_ends:
  "nonspace a \<Longrightarrow> nonspace b \<Longrightarrow> TrimSpace (a # mid @ [b]) = a # mid @ [b]"
proof -
  assume a: "nonspace a" and b: "nonspace b"
  have "leadingSpace (a # mid @ [b]) = 0" using a by (rule leadingSpace_nonspace)
  moreover have "trailingSpace ((a # mid) @ [b]) = 0" using b by (rule trailingSpace_nonspace)
  ultimately show ?thesis by (simp add: TrimSpace_fixed)
qed

lemma trailingSpace_newline: "trailingSpace (s @ [CHR 0x0A]) = 1"
  by (simp add: trailingSpace_def spaceRunes_def suffix_to_prefix)

lemma TrimSpace_drops_newline:
  assumes a: "nonspace a" and b: "nonspace b"
  shows "TrimSpace (a # mid @ [b] @ [CHR 0x0A]) = a # mid @ [b]"
proof -
  have "leadingSpace (a # mid @ [b] @ [CHR 0x0A]) = 0" using a by (rule leadingSpace_nonspace)
  then have l: "TrimLeftSpace (a # mid @ [b] @ [CHR 0x0A]) = a # mid @ [b] @ [CHR 0x0A]"
    by (simp add: TrimLeftSpace.simps)
  have "trailingSpace ((a # mid @ [b]) @ [CHR 0x0A]) = 1" by (rule trailingSpace_newline)
  then have "TrimRightSpace ((a # mid @ [b]) @ [CHR 0x0A]) = TrimRightSpace (a # mid @ [b])"
    by (subst TrimRightSpace.simps) simp
  moreover have "trailingSpace ((a # mid) @ [b]) = 0" using b by (rule trailingSpace_nonspace)
  then have "TrimRightSpace (a # mid @ [b]) = a # mid @ [b]"
    by (subst TrimRightSpace.simps) simp
  ultimately show ?thesis using l by (simp add: TrimSpace_def)
qed

lemma Index_single: "c \<notin> set pre \<Longrightarrow> Index (pre @ c # rest) [c] = int (length pre)"
  by (induction pre) (auto simp: Let_def)

lemma LastIndex_absent: "c \<notin> set s \<Longrightarrow> LastIndex s [c] = -1"
  by (induction s) (auto simp: Let_def)

lemma LastIndex_single: "c \<notin> set post \<Longrightarrow> LastIndex (front @ c # post) [c] = int (length front)"
  by (induction front) (auto simp: Let_def LastIndex_absent)

lemma LastIndex_short: "length s < length sub \<Longrightarrow> LastIndex s sub = -1"
proof (induction s)
  case Nil
  then show ?case by auto
next
  case (Cons c s)
  then have "LastIndex s sub = -1" by simp
  moreover from Cons.prems have "\<not> prefix sub (c # s)"
    using prefix_length_le by fastforce
  ultimately show ?case by (simp add: Let_def)
qed

lemma LastIndex_append_self: "sub \<noteq> [] \<Longrightarrow> LastIndex (front @ sub) sub = int (length front)"
proof (induction front)
  case Nil
  then obtain c s where sub: "sub = c # s" by (cases sub) auto
  have "LastIndex s sub = -1" by (rule LastIndex_short) (simp add: sub)
  then have "LastIndex (c # s) sub = 0" by (simp add: Let_def sub)
  then show ?case by (simp add: sub)
next
  case (Cons a front)
  then show ?case by (simp add: Let_def)
qed

lemma take_length_append: "take (length xs) (xs @ ys) = xs"
  by simp

lemma stripFence_plain:
  assumes "nonspace a" "nonspace b" "a \<noteq> CHR 0x60"
  shows "stripFence (a # mid @ [b]) = a # mid @ [b]"
  using assms by (simp add: stripFence_def TrimSpace_nonspace_ends HasPrefix_def fence_def)

lemma fence_nonempty: "fence \<noteq> []"
  by (simp add: fence_def)

lemma stripFence_block:
  assumes t: "TrimSpace (fence @ tag @ CHR 0x0A # body @ fence) = fence @ tag @ CHR 0x0A # body @ fence"
    and tag: "CHR 0x0A \<notin> set tag"
  shows "stripFence (fence @ tag @ CHR 0x0A # body @ fence) = TrimSpace body"
proof -
  have n: "nat (int (length tag) + 1) = Suc (length tag)" by simp
  show ?thesis
    using tag
    by (simp add: stripFence_def Let_def t HasPrefix_def TrimPrefix_def Index_single n
        LastIndex_append_self fence_nonempty)
qed

lemma stripFence_fenced:
  assumes a: "nonspace a" and b: "nonspace b" and tag: "CHR 0x0A \<notin> set tag"
  shows "stripFence (fence @ tag @ [CHR 0x0A] @ (a # mid @ [b]) @ [CHR 0x0A] @ fence) = a # mid @ [b]"
proof -
  let ?body = "(a # mid @ [b]) @ [CHR 0x0A]"
  let ?raw = "fence @ tag @ CHR 0x0A # ?body @ fence"
  have "?raw = CHR 0x60 # ([CHR 0x60, CHR 0x60] @ tag @ CHR 0x0A # ?body @ [CHR 0x60, CHR 0x60]) @ [CHR 0x60]"
    by (simp add: fence_def)
  then have t: "TrimSpace ?raw = ?raw"
    using TrimSpace_nonspace_ends [OF nonspace_braces(3) nonspace_braces(3)] by metis
  have "stripFence ?raw = TrimSpace ?body" using t tag by (rule stripFence_block)
  also have "\<dots> = a # mid @ [b]" using TrimSpace_drops_newline [OF a b] by simp
  finally show ?thesis by simp
qed

section \<open>Properties of package \<^verbatim>\<open>llm\<close>\<close>

lemmas str_eval =
  TrimSpace_def TrimLeftSpace.simps TrimRightSpace.simps leadingSpace_def trailingSpace_def
  spaceRunes_def suffix_to_prefix ToLower_def lowerByte_def byte_def TrimRight_def

lemmas sample_eval =
  sampleEnv_def sampleSettings_def sampleInput_def sampleReply_def sampleUnmarshal_def
  sampleObject_def



text \<open>
  \<^bold>\<open>C9\<close> as the code has it. With no redaction active, the provider name is trimmed
  and lower-cased and then: the empty name and \<open>mock\<close> go to the mock backend (the
  \<^verbatim>\<open>switch\<close> has \<^verbatim>\<open>case "", "mock"\<close>), \<open>openai\<close> to the OpenAI backend (which is
  not configured and always fails), \<open>ollama\<close> to the Ollama backend, and every other
  name is the configuration error \<open>unsupported llm provider\<close>.
\<close>

theorem Summarize_provider_dispatch:
  assumes "ToLower (unicodeLower E) (TrimSpace level) = []
         \<or> ToLower (unicodeLower E) (TrimSpace level) = ''none''"
  shows "(let provider = ToLower (unicodeLower E) (TrimSpace (Provider settings)) in
           (provider \<noteq> [] \<and> provider \<noteq> ''mock'' \<and> provider \<noteq> ''openai'' \<and> provider \<noteq> ''ollama''
              \<longrightarrow> Summarize E settings input level
                    = Inl (''unsupported llm provider: '' @ Provider settings))
         \<and> (provider = [] \<or> provider = ''mock''
              \<longrightarrow> Summarize E settings input level = Inr (SummarizeMock E input level))
         \<and> (provider = ''openai''
              \<longrightarrow> Summarize E settings input level = Inl ''openai summarizer not configured'')
         \<and> (provider = ''ollama''
              \<longrightarrow> Summarize E settings input level = SummarizeOllama E settings input))"
  using assms by (auto simp: Summarize_def SummarizeOpenAI_def Let_def)

theorem Summarize_provider_dispatch_witness:
  "ToLower (unicodeLower (sampleEnv ''x'')) (TrimSpace '' None '') = ''none''
   \<and> ToLower (unicodeLower (sampleEnv ''x'')) (TrimSpace (Provider (sampleSettings ''Claude''))) = ''claude''
   \<and> Summarize (sampleEnv ''x'') (sampleSettings ''Claude'') (sampleInput ''text'') '' None ''
       = Inl ''unsupported llm provider: Claude''
   \<and> ToLower (unicodeLower (sampleEnv ''x'')) (TrimSpace (Provider (sampleSettings '' OpenAI ''))) = ''openai''
   \<and> Summarize (sampleEnv ''x'') (sampleSettings '' OpenAI '') (sampleInput ''text'') '' None ''
       = Inl ''openai summarizer not configured''"
proof -
  have l: "ToLower (unicodeLower (sampleEnv ''x'')) (TrimSpace '' None '') = ''none''"
    by (simp add: str_eval sample_eval)
  have p: "ToLower (unicodeLower (sampleEnv ''x'')) (TrimSpace (Provider (sampleSettings ''Claude''))) = ''claude''"
    by (simp add: str_eval sample_eval)
  have q: "ToLower (unicodeLower (sampleEnv ''x'')) (TrimSpace (Provider (sampleSettings '' OpenAI ''))) = ''openai''"
    by (simp add: str_eval sample_eval)
  from l have h: "ToLower (unicodeLower (sampleEnv ''x'')) (TrimSpace '' None '') = []
         \<or> ToLower (unicodeLower (sampleEnv ''x'')) (TrimSpace '' None '') = ''none''" by simp
  have a: "Summarize (sampleEnv ''x'') (sampleSettings ''Claude'') (sampleInput ''text'') '' None ''
       = Inl ''unsupported llm provider: Claude''"
    using Summarize_provider_dispatch [OF h, of "sampleSettings ''Claude''" "sampleInput ''text''"] p
    by (simp add: sampleSettings_def)
  have b: "Summarize (sampleEnv ''x'') (sampleSettings '' OpenAI '') (sampleInput ''text'') '' None ''
       = Inl ''openai summarizer not configured''"
    using Summarize_provider_dispatch [OF h, of "sampleSettings '' OpenAI ''" "sampleInput ''text''"] q
    by simp
  from l p a q b show ?thesis by blast
qed

text \<open>
  The claim as stated fails at the empty provider name: with no redaction active an
  unconfigured provider is not an error, the mock backend answers.
\<close>

theorem Summarize_provider_dispatch_counterexample:
  "Summarize (sampleEnv ''x'') (sampleSettings []) (sampleInput ''text'') [] =
     Inr \<lparr>s_IncidentID = ''INC-1'',
          s_SummaryMarkdown = ''Incident INC-1 summary: collected 1 evidence item(s) at 2024-05-01T10:00:00Z.'',
          s_Highlights = [''1 evidence item(s) collected''],
          s_ActionItems = [''review evidence bundle'', ''confirm next steps''],
          s_Confidence = 4 / 10, s_Model = ''mock'', s_ArtifactPtr = []\<rparr>"
  by (simp add: Summarize_def SummarizeMock_def str_eval sample_eval Itoa.simps)

text \<open>
  \<^bold>\<open>C7.\<close> After a successful round trip (a decoded body, a 2xx status, no error
  field) \<open>SummarizeOllama\<close> fails exactly when the reply is empty after trimming. A
  non-empty reply always gives a summary; and when no JSON can be recovered from it
  (\<open>parseSummaryJSON\<close> gives up: the decoder rejects the stripped reply and the text
  between its first and last brace), the summary text is the trimmed reply and there
  are no highlights and no action items.
\<close>

theorem SummarizeOllama_recovery:
  assumes "TrimSpace (OllamaModel settings) \<noteq> []"
    and "TrimRight (TrimSpace (OllamaURL settings)) (CHR ''/'') \<noteq> []"
    and "chat E (TrimSpace (OllamaModel settings))
           (TrimRight (TrimSpace (OllamaURL settings)) (CHR ''/'')) settings input
         = Response status response"
    and "200 \<le> status" and "status < 300" and "r_Error response = []"
  shows "(TrimSpace (r_Content response) = []
            \<longrightarrow> SummarizeOllama E settings input = Inl ''ollama response empty'')
       \<and> (TrimSpace (r_Content response) \<noteq> []
            \<longrightarrow> (\<exists>summary. SummarizeOllama E settings input = Inr summary))
       \<and> (TrimSpace (r_Content response) \<noteq> []
          \<and> parseSummaryJSON (jsonUnmarshal E) (TrimSpace (r_Content response)) = None
            \<longrightarrow> (\<exists>summary. SummarizeOllama E settings input = Inr summary
                   \<and> s_SummaryMarkdown summary = TrimSpace (r_Content response)
                   \<and> s_Highlights summary = []
                   \<and> s_ActionItems summary = []))"
  using assms by (simp add: SummarizeOllama_def Let_def)

lemmas parse_eval =
  parseSummaryJSON_def stripFence_def HasPrefix_def TrimPrefix_def fence_def zeroPayload_def
  normalizeSummaryPayload_def

theorem SummarizeOllama_recovery_witness:
  "TrimSpace (OllamaModel (sampleSettings ''ollama'')) = ''llama3''
   \<and> TrimRight (TrimSpace (OllamaURL (sampleSettings ''ollama''))) (CHR ''/'') = ''http://localhost:11434''
   \<and> TrimSpace ''  not json  '' = ''not json''
   \<and> parseSummaryJSON (jsonUnmarshal (sampleEnv ''  not json  '')) ''not json'' = None
   \<and> (\<exists>summary. SummarizeOllama (sampleEnv ''  not json  '') (sampleSettings ''ollama'') (sampleInput ''text'')
                   = Inr summary
        \<and> s_SummaryMarkdown summary = ''not json''
        \<and> s_Highlights summary = [] \<and> s_ActionItems summary = [])
   \<and> TrimSpace ''   '' = []
   \<and> SummarizeOllama (sampleEnv ''   '') (sampleSettings ''ollama'') (sampleInput ''text'')
       = Inl ''ollama response empty''"
proof -
  let ?S = "sampleSettings ''ollama''" and ?I = "sampleInput ''text''"
  have m: "TrimSpace (OllamaModel ?S) = ''llama3''"
    by (simp add: str_eval sample_eval)
  have u: "TrimRight (TrimSpace (OllamaURL ?S)) (CHR ''/'') = ''http://localhost:11434''"
    by (simp add: str_eval sample_eval)
  have t: "TrimSpace ''  not json  '' = ''not json''"
    by (simp add: str_eval)
  have b: "TrimSpace ''   '' = []"
    by (simp add: str_eval)
  have n: "parseSummaryJSON (jsonUnmarshal (sampleEnv ''  not json  '')) ''not json'' = None"
    by (simp add: parse_eval str_eval sample_eval)
  have c: "chat (sampleEnv content) (TrimSpace (OllamaModel ?S))
             (TrimRight (TrimSpace (OllamaURL ?S)) (CHR ''/'')) ?S ?I
           = Response 200 \<lparr>r_Content = content, r_Done = True, r_Error = []\<rparr>" for content
    by (simp add: sampleEnv_def sampleReply_def)
  have m': "TrimSpace (OllamaModel ?S) \<noteq> []" and u': "TrimRight (TrimSpace (OllamaURL ?S)) (CHR ''/'') \<noteq> []"
    by (simp_all add: m u)
  have r: "r_Error \<lparr>r_Content = content, r_Done = True, r_Error = []\<rparr> = []" for content :: string
    by simp
  from SummarizeOllama_recovery [OF m' u' c _ _ r, of "''  not json  ''"] t n
  have x: "\<exists>summary. SummarizeOllama (sampleEnv ''  not json  '') ?S ?I = Inr summary
        \<and> s_SummaryMarkdown summary = ''not json''
        \<and> s_Highlights summary = [] \<and> s_ActionItems summary = []"
    by simp
  from SummarizeOllama_recovery [OF m' u' c _ _ r, of "''   ''"] b
  have y: "SummarizeOllama (sampleEnv ''   '') ?S ?I = Inl ''ollama response empty''"
    by simp
  from m u t n x b y show ?thesis by blast
qed

subsection \<open>Recovering the summary from a reply\<close>

lemma parseSummaryJSON_direct:
  "unmarshal (stripFence raw) zeroPayload = (payload, True)
   \<Longrightarrow> parseSummaryJSON unmarshal raw = Some (normalizeSummaryPayload payload)"
  by (simp add: parseSummaryJSON_def)

lemma parseSummaryJSON_braces:
  assumes t: "stripFence raw = pre @ CHR ''{'' # mid @ CHR ''}'' # post"
    and pre: "CHR ''{'' \<notin> set pre" and post: "CHR ''}'' \<notin> set post"
    and rej: "unmarshal (stripFence raw) zeroPayload = (zeroPayload, False)"
    and dec: "unmarshal (CHR ''{'' # mid @ [CHR ''}'']) zeroPayload = (payload, True)"
  shows "parseSummaryJSON unmarshal raw = Some (normalizeSummaryPayload payload)"
proof -
  let ?T = "pre @ CHR ''{'' # mid @ CHR ''}'' # post"
  have start: "Index ?T ''{'' = int (length pre)" using pre by (rule Index_single)
  have "LastIndex ((pre @ CHR ''{'' # mid) @ CHR ''}'' # post) ''}'' = int (length (pre @ CHR ''{'' # mid))"
    using post by (rule LastIndex_single)
  then have stop: "LastIndex ?T ''}'' = int (length pre) + 1 + int (length mid)" by simp
  have n: "nat (int (length pre) + 1 + int (length mid) + 1) - nat (int (length pre)) = Suc (Suc (length mid))"
    by simp
  have cut: "take (Suc (Suc (length mid))) (drop (length pre) ?T) = CHR ''{'' # mid @ [CHR ''}'']"
    by simp
  from rej t have rej': "unmarshal ?T zeroPayload = (zeroPayload, False)" by simp
  show ?thesis
    unfolding parseSummaryJSON_def Let_def t rej' start stop n
    using cut dec by simp
qed

text \<open>
  \<^bold>\<open>C6\<close> as the code has it. Let \<open>j\<close> be a JSON object text (from its opening to
  its closing brace) that the decoder accepts. \<open>parseSummaryJSON\<close> recovers the same
  payload from \<open>j\<close>, from \<open>j\<close> between an opening fence line (the marker and any tag
  up to the line's end) and a closing fence line, and from \<open>j\<close> with text before it
  that has no opening brace and text after it that has no closing brace, provided
  the whole reply, trimmed, does not start with the fence marker.
\<close>

theorem parseSummaryJSON_three_forms:
  assumes j: "j = CHR ''{'' # mid @ [CHR ''}'']"
    and dec: "unmarshal j zeroPayload = (payload, True)"
    and rej: "rejectsNonObject unmarshal"
    and tag: "CHR 0x0A \<notin> set tag"
    and pre: "CHR ''{'' \<notin> set pre" and post: "CHR ''}'' \<notin> set post"
    and nofence: "\<not> HasPrefix (TrimSpace (pre @ j @ post)) fence"
  shows "parseSummaryJSON unmarshal j = Some (normalizeSummaryPayload payload)
       \<and> parseSummaryJSON unmarshal (fence @ tag @ [CHR 0x0A] @ j @ [CHR 0x0A] @ fence)
           = Some (normalizeSummaryPayload payload)
       \<and> parseSummaryJSON unmarshal (pre @ j @ post) = Some (normalizeSummaryPayload payload)"
proof (intro conjI)
  have "stripFence j = j"
    unfolding j by (rule stripFence_plain) (simp_all add: nonspace_braces)
  with dec show "parseSummaryJSON unmarshal j = Some (normalizeSummaryPayload payload)"
    by (simp add: parseSummaryJSON_direct)
next
  have "stripFence (fence @ tag @ [CHR 0x0A] @ j @ [CHR 0x0A] @ fence) = j"
    unfolding j using nonspace_braces(1) nonspace_braces(2) tag by (rule stripFence_fenced)
  with dec show "parseSummaryJSON unmarshal (fence @ tag @ [CHR 0x0A] @ j @ [CHR 0x0A] @ fence)
      = Some (normalizeSummaryPayload payload)"
    by (simp add: parseSummaryJSON_direct)
next
  let ?raw = "pre @ j @ post"
  from TrimSpace_embedded [OF nonspace_braces(1) nonspace_braces(2), of pre post mid]
  obtain pre' post' where e: "suffix pre' pre" "prefix post' post"
      "TrimSpace (pre @ CHR ''{'' # mid @ CHR ''}'' # post) = pre' @ CHR ''{'' # mid @ CHR ''}'' # post'"
      "TrimSpace (pre' @ CHR ''{'' # mid @ CHR ''}'' # post') = pre' @ CHR ''{'' # mid @ CHR ''}'' # post'"
    by blast
  let ?T = "pre' @ CHR ''{'' # mid @ CHR ''}'' # post'"
  from e(3) have T: "TrimSpace ?raw = ?T" by (simp add: j)
  with nofence have s: "stripFence ?raw = ?T" by (simp add: stripFence_def)
  from e(1) pre have pre': "CHR ''{'' \<notin> set pre'" using set_mono_suffix by fastforce
  from e(2) post have post': "CHR ''}'' \<notin> set post'" using set_mono_prefix by fastforce
  show "parseSummaryJSON unmarshal ?raw = Some (normalizeSummaryPayload payload)"
  proof (cases "pre' = [] \<and> post' = []")
    case True
    with s have "stripFence ?raw = j" by (simp add: j)
    with dec show ?thesis by (simp add: parseSummaryJSON_direct)
  next
    case False
    have "hd ?T \<noteq> CHR ''{'' \<or> last ?T \<noteq> CHR ''}''"
    proof (cases "pre' = []")
      case True
      with False have "post' \<noteq> []" by simp
      then have "last ?T = last post'" by simp
      moreover from \<open>post' \<noteq> []\<close> post' have "last post' \<noteq> CHR ''}''"
        using last_in_set by fastforce
      ultimately show ?thesis by simp
    next
      case False
      then have "hd ?T = hd pre'" by simp
      moreover from False pre' have "hd pre' \<noteq> CHR ''{''"
        using hd_in_set by fastforce
      ultimately show ?thesis by simp
    qed
    moreover have "CHR ''{'' \<in> set ?T" by simp
    ultimately have "unmarshal ?T zeroPayload = (zeroPayload, False)"
      using rej e(4) unfolding rejectsNonObject_def by blast
    with s have r: "unmarshal (stripFence ?raw) zeroPayload = (zeroPayload, False)" by simp
    from dec have d: "unmarshal (CHR ''{'' # mid @ [CHR ''}'']) zeroPayload = (payload, True)"
      by (simp add: j)
    from s pre' post' r d show ?thesis by (rule parseSummaryJSON_braces)
  qed
qed

theorem parseSummaryJSON_three_forms_witness:
  "rejectsNonObject sampleUnmarshal
   \<and> \<not> HasPrefix (TrimSpace (''Here is the summary: '' @ sampleObject @ '' Hope this helps.'')) fence
   \<and> parseSummaryJSON sampleUnmarshal sampleObject
       = Some \<lparr>p_SummaryMarkdown = ''a'', p_Highlights = [], p_ActionItems = [], p_Confidence = 0\<rparr>
   \<and> parseSummaryJSON sampleUnmarshal (fence @ ''json'' @ [CHR 0x0A] @ sampleObject @ [CHR 0x0A] @ fence)
       = Some \<lparr>p_SummaryMarkdown = ''a'', p_Highlights = [], p_ActionItems = [], p_Confidence = 0\<rparr>
   \<and> parseSummaryJSON sampleUnmarshal (''Here is the summary: '' @ sampleObject @ '' Hope this helps.'')
       = Some \<lparr>p_SummaryMarkdown = ''a'', p_Highlights = [], p_ActionItems = [], p_Confidence = 0\<rparr>"
proof -
  let ?mid = "[CHR 0x22] @ ''summary_md'' @ [CHR 0x22] @ '':'' @ [CHR 0x22] @ ''a'' @ [CHR 0x22]"
  let ?p = "\<lparr>p_SummaryMarkdown = ''a'', p_Highlights = [], p_ActionItems = [], p_Confidence = 0\<rparr>"
  have j: "sampleObject = CHR ''{'' # ?mid @ [CHR ''}'']" by (simp add: sampleObject_def)
  have dec: "sampleUnmarshal sampleObject zeroPayload = (?p, True)"
    by (simp add: sampleUnmarshal_def zeroPayload_def)
  have rej: "rejectsNonObject sampleUnmarshal"
    by (auto simp: rejectsNonObject_def sampleUnmarshal_def sampleObject_def)
  have nofence: "\<not> HasPrefix (TrimSpace (''Here is the summary: '' @ sampleObject @ '' Hope this helps.'')) fence"
    by (simp add: str_eval sampleObject_def HasPrefix_def fence_def)
  have n: "normalizeSummaryPayload ?p = ?p" by (simp add: normalizeSummaryPayload_def)
  have "parseSummaryJSON sampleUnmarshal sampleObject = Some (normalizeSummaryPayload ?p)
      \<and> parseSummaryJSON sampleUnmarshal (fence @ ''json'' @ [CHR 0x0A] @ sampleObject @ [CHR 0x0A] @ fence)
           = Some (normalizeSummaryPayload ?p)
      \<and> parseSummaryJSON sampleUnmarshal (''Here is the summary: '' @ sampleObject @ '' Hope this helps.'')
           = Some (normalizeSummaryPayload ?p)"
    using j dec rej _ _ _ nofence by (rule parseSummaryJSON_three_forms) simp_all
  with rej nofence show ?thesis unfolding n by blast
qed

text \<open>
  The claim as stated fails for text around the object that has no brace but starts
  with the fence marker: \<open>j\<close> alone is recovered, but for the one-line fence with a
  line of text after it the fence rule drops everything up to the first line feed,
  which is the object itself, and nothing is recovered from the rest.
\<close>

theorem parseSummaryJSON_three_forms_counterexample:
  "parseSummaryJSON sampleUnmarshal sampleObject
       = Some \<lparr>p_SummaryMarkdown = ''a'', p_Highlights = [], p_ActionItems = [], p_Confidence = 0\<rparr>
   \<and> parseSummaryJSON sampleUnmarshal
         ((fence @ '' '') @ sampleObject @ ('' '' @ fence @ [CHR 0x0A] @ ''thanks'')) = None
   \<and> CHR ''{'' \<notin> set (fence @ '' '') \<and> CHR ''}'' \<notin> set (fence @ '' '')
   \<and> CHR ''{'' \<notin> set ('' '' @ fence @ [CHR 0x0A] @ ''thanks'')
   \<and> CHR ''}'' \<notin> set ('' '' @ fence @ [CHR 0x0A] @ ''thanks'')"
  by (simp add: parse_eval str_eval sample_eval Let_def)

section \<open>Properties of the poster\<close>

lemma buildResult_frame:
  "posts (snd (buildResult E w req r)) = posts w"
  "uploads (snd (buildResult E w req r)) = uploads w"
  "cache (snd (buildResult E w req r)) = cache w"
  by (simp_all add: buildResult_def split: sum.splits)

lemma storeCachedPost_frame:
  "posts (snd (storeCachedPost L E w key r)) = posts w"
  "uploads (snd (storeCachedPost L E w key r)) = uploads w"
  "results (snd (storeCachedPost L E w key r)) = results w"
  by (simp_all add: storeCachedPost_def split: sum.splits option.splits)

lemma storeCachedPost_ok:
  "storeCachedPost L E w key r = (None, w') \<Longrightarrow>
     \<exists>data. marshalPost L r = Inr data \<and> w' = w\<lparr>cache := (cache w)(key \<mapsto> data)\<rparr>"
  by (auto simp: storeCachedPost_def split: sum.splits option.splits)

lemma storeCachedPost_failed:
  "storeCachedPost L E w key r = (Some e, w') \<Longrightarrow> w' = w"
  by (auto simp: storeCachedPost_def split: sum.splits option.splits)

lemma postSlack_frame:
  "cache (snd (postSlack L E req w input result maxBytes)) = cache w"
  "results (snd (postSlack L E req w input result maxBytes)) = results w"
  "length (posts (snd (postSlack L E req w input result maxBytes))) \<le> Suc (length (posts w))"
  by (simp_all add: postSlack_def Let_def split: sum.splits)

lemma postArtifact_frame:
  "cache (snd (postArtifact E w input result maxBytes)) = cache w"
  "results (snd (postArtifact E w input result maxBytes)) = results w"
  "posts (snd (postArtifact E w input result maxBytes)) = posts w"
  by (simp_all add: postArtifact_def Let_def split: sum.splits)

lemma postSlack_refused:
  assumes "Parse L (jr_Env req) = Inr constraints"
    and "HostAllowed L constraints (resolveWebhook E input) = Inr False"
  shows "posts (snd (postSlack L E req w input result maxBytes)) = posts w"
    and "resolveWebhook E input \<noteq> [] \<Longrightarrow>
           postSlack L E req w input result maxBytes = (Inl ''webhook host not allowed by policy'', w)"
  using assms by (simp_all add: postSlack_def Let_def)

text \<open>The handler on a cache hit.\<close>

lemma handler_hit:
  assumes ctx: "GetContextJSON E (contextPtr req) = Inr input"
    and hit: "cache w (cacheKeyOf input) = Some data"
  shows "posts (snd (handler L E req w)) = posts w"
    and "uploads (snd (handler L E req w)) = uploads w"
    and "cache (snd (handler L E req w)) = cache w"
    and "TrimSpace (in_IncidentID (pi_Incident input)) \<noteq> [] \<Longrightarrow> redisGetError E (cacheKeyOf input) = None
         \<Longrightarrow> unmarshalPost L data = Inr r
         \<Longrightarrow> handler L E req w = buildResult E w req r"
  using assms
  by (simp_all add: handler_def getCachedPost_def buildResult_frame split: sum.splits option.splits)

text \<open>The handler on a miss.\<close>

lemma handler_miss:
  assumes ctx: "GetContextJSON E (contextPtr req) = Inr input"
    and id: "TrimSpace (in_IncidentID (pi_Incident input)) \<noteq> []"
    and miss: "getCachedPost L E w (cacheKeyOf input) = Inr None"
  shows "handler L E req w =
     (let mode = modeOf L input;
          result = \<lparr>pr_IncidentID = in_IncidentID (pi_Incident input),
                    pr_Mode = mode, pr_Slack = None, pr_ArtifactPtr = [],
                    pr_PostedAt = nowRFC3339 E\<rparr>;
          maxBytes = MaxArtifactBytes L (jr_Env req);
          outcome = (if mode = ''slack'' then postSlack L E req w input result maxBytes
                     else if mode = ''artifact'' then postArtifact E w input result maxBytes
                     else (Inl (''unsupported destination mode: '' @ mode), w))
      in case outcome of
           (Inl e, w1) \<Rightarrow> (Inl e, w1)
         | (Inr posted, w1) \<Rightarrow>
             (case storeCachedPost L E w1 (cacheKeyOf input) posted of
                (Some e, w2) \<Rightarrow> (Inl e, w2)
              | (None, w2) \<Rightarrow> buildResult E w2 req posted))"
  using assms by (simp add: handler_def)

lemma buildResult_ok:
  "buildResult E w req r = (Inr job, w') \<Longrightarrow> w' = w\<lparr>results := results w @ [(jr_JobId req, r)]\<rparr>"
  by (auto simp: buildResult_def split: sum.splits)

lemma handler_first_success:
  assumes rt: "codecRoundTrip L"
    and ctx: "GetContextJSON E (contextPtr req) = Inr input"
    and ok: "handler L E req w0 = (Inr job, w1)"
  shows "\<exists>data r. cache w1 (cacheKeyOf input) = Some data \<and> unmarshalPost L data = Inr r
           \<and> results w1 = results w0 @ [(jr_JobId req, r)]
           \<and> length (posts w1) \<le> length (posts w0) + 1"
proof -
  from ok ctx have id: "TrimSpace (in_IncidentID (pi_Incident input)) \<noteq> []"
    by (auto simp: handler_def split: if_splits)
  show ?thesis
  proof (cases "getCachedPost L E w0 (cacheKeyOf input)")
    case (Inl e)
    with ok ctx id show ?thesis by (simp add: handler_def)
  next
    case (Inr found)
    show ?thesis
    proof (cases found)
      case (Some cached)
      with Inr have g: "getCachedPost L E w0 (cacheKeyOf input) = Inr (Some cached)" by simp
      then obtain data where d: "cache w0 (cacheKeyOf input) = Some data" "unmarshalPost L data = Inr cached"
        by (auto simp: getCachedPost_def split: option.splits sum.splits)
      from ok ctx id g have "buildResult E w0 req cached = (Inr job, w1)" by (simp add: handler_def)
      then have "w1 = w0\<lparr>results := results w0 @ [(jr_JobId req, cached)]\<rparr>" by (rule buildResult_ok)
      with d show ?thesis by auto
    next
      case None
      with Inr have miss: "getCachedPost L E w0 (cacheKeyOf input) = Inr None" by simp
      define result where "result = \<lparr>pr_IncidentID = in_IncidentID (pi_Incident input),
          pr_Mode = modeOf L input, pr_Slack = None, pr_ArtifactPtr = [], pr_PostedAt = nowRFC3339 E\<rparr>"
      define outcome where "outcome = (if modeOf L input = ''slack''
          then postSlack L E req w0 input result (MaxArtifactBytes L (jr_Env req))
          else if modeOf L input = ''artifact''
          then postArtifact E w0 input result (MaxArtifactBytes L (jr_Env req))
          else (Inl (''unsupported destination mode: '' @ modeOf L input), w0))"
      have fr: "cache (snd outcome) = cache w0" "results (snd outcome) = results w0"
          "length (posts (snd outcome)) \<le> length (posts w0) + 1"
        by (simp_all add: outcome_def postSlack_frame postArtifact_frame)
      from handler_miss [OF ctx id miss] ok
      have h: "(case outcome of
           (Inl e, wa) \<Rightarrow> (Inl e, wa)
         | (Inr posted, wa) \<Rightarrow>
             (case storeCachedPost L E wa (cacheKeyOf input) posted of
                (Some e, wb) \<Rightarrow> (Inl e, wb)
              | (None, wb) \<Rightarrow> buildResult E wb req posted)) = (Inr job, w1)"
        by (simp add: Let_def outcome_def result_def)
      then obtain posted wa where o: "outcome = (Inr posted, wa)"
        by (cases outcome; cases "fst outcome") auto
      with h obtain wb where st: "storeCachedPost L E wa (cacheKeyOf input) posted = (None, wb)"
          and b: "buildResult E wb req posted = (Inr job, w1)"
        by (cases "storeCachedPost L E wa (cacheKeyOf input) posted";
            cases "fst (storeCachedPost L E wa (cacheKeyOf input) posted)") auto
      from st obtain data where m: "marshalPost L posted = Inr data"
          and wb: "wb = wa\<lparr>cache := (cache wa)(cacheKeyOf input \<mapsto> data)\<rparr>"
        using storeCachedPost_ok by blast
      from rt m have u: "unmarshalPost L data = Inr posted" by (simp add: codecRoundTrip_def)
      from b have w1: "w1 = wb\<lparr>results := results wb @ [(jr_JobId req, posted)]\<rparr>"
        by (rule buildResult_ok)
      from o fr have "results wa = results w0" "length (posts wa) \<le> length (posts w0) + 1" by simp_all
      with w1 wb u show ?thesis by auto
    qed
  qed
qed

lemma finish_posts:
  "posts (snd (case outcome of
           (Inl e, w1) \<Rightarrow> (Inl e, w1)
         | (Inr posted, w1) \<Rightarrow>
             (case storeCachedPost L E w1 key posted of
                (Some e, w2) \<Rightarrow> (Inl e, w2)
              | (None, w2) \<Rightarrow> buildResult E w2 req posted))) = posts (snd outcome)"
proof (cases outcome)
  case (Pair r w1)
  show ?thesis
  proof (cases r)
    case (Inl e)
    with Pair show ?thesis by simp
  next
    case (Inr posted)
    obtain err w2 where s: "storeCachedPost L E w1 key posted = (err, w2)" by fastforce
    then have "posts w2 = posts w1" using storeCachedPost_frame(1) [of L E w1 key posted] by simp
    with Pair Inr s show ?thesis by (cases err) (simp_all add: buildResult_frame)
  qed
qed

lemma getCachedPost_miss:
  "redisGetError E key = None \<Longrightarrow> cache w key = None \<Longrightarrow> getCachedPost L E w key = Inr None"
  by (simp add: getCachedPost_def)

lemma postSlack_allowed_posts:
  assumes "resolveWebhook E input \<noteq> []"
    and "Parse L (jr_Env req) = Inr constraints"
    and "HostAllowed L constraints (resolveWebhook E input) = Inr True"
  shows "posts (snd (postSlack L E req w input result maxBytes))
           = posts w @ [(resolveWebhook E input, slackMessage input)]"
  using assms by (simp add: postSlack_def Let_def split: sum.splits)

lemma handler_allowed_posts:
  assumes a: "slackAllowed L E req input" and miss: "cache w (cacheKeyOf input) = None"
  shows "posts (snd (handler L E req w)) = posts w @ [(resolveWebhook E input, slackMessage input)]"
proof -
  from a have ctx: "GetContextJSON E (contextPtr req) = Inr input"
    and id: "TrimSpace (in_IncidentID (pi_Incident input)) \<noteq> []"
    and get: "redisGetError E (cacheKeyOf input) = None"
    and slack: "modeOf L input = ''slack''"
    and url: "resolveWebhook E input \<noteq> []"
    by (simp_all add: slackAllowed_def)
  from a obtain constraints where p: "Parse L (jr_Env req) = Inr constraints"
      and h: "HostAllowed L constraints (resolveWebhook E input) = Inr True"
    by (auto simp: slackAllowed_def split: sum.splits)
  from get miss have m: "getCachedPost L E w (cacheKeyOf input) = Inr None"
    by (rule getCachedPost_miss)
  show ?thesis
    unfolding handler_miss [OF ctx id m] Let_def finish_posts
    by (simp add: slack postSlack_allowed_posts [OF url p h])
qed

lemmas poster_eval =
  handler_def getCachedPost_def storeCachedPost_def buildResult_def contextPtr_def
  cacheKeyOf_def resolveWebhook_def slackMessage_def postSlack_def postArtifact_def modeOf_def
  sampleLib_def sampleExt_def sampleRequest_def emptyWorld_def samplePosterInput_def
  samplePosted_def sampleHook_def sampleWorldAfterPost_def

text \<open>
  \<^bold>\<open>C1.\<close> Two invocations for the same incident id, one after the other, the first
  of which succeeds (from world \<open>w0\<close> to \<open>w1\<close>): the first calls the webhook sink at most
  once, and the second calls it not at all, uploads nothing and leaves the cache as
  it is, whatever the second invocation meets outside. The first wrote one
  \<^verbatim>\<open>PostResult\<close> as its job's result; when the second invocation's cache read and
  result write do not fail, it succeeds and writes that same \<^verbatim>\<open>PostResult\<close> as its
  own job's result. This holds for every mode, \<open>slack\<close> among them. The second
  invocation runs in the world the first left, so the cache entry has not expired.
\<close>

theorem handler_idempotent:
  assumes rt: "codecRoundTrip L"
    and ctx1: "GetContextJSON E1 (contextPtr req1) = Inr input1"
    and ctx2: "GetContextJSON E2 (contextPtr req2) = Inr input2"
    and same: "in_IncidentID (pi_Incident input2) = in_IncidentID (pi_Incident input1)"
    and first: "handler L E1 req1 w0 = (Inr job1, w1)"
  shows "length (posts w1) \<le> length (posts w0) + 1
       \<and> posts (snd (handler L E2 req2 w1)) = posts w1
       \<and> uploads (snd (handler L E2 req2 w1)) = uploads w1
       \<and> cache (snd (handler L E2 req2 w1)) = cache w1
       \<and> (\<exists>result. results w1 = results w0 @ [(jr_JobId req1, result)]
             \<and> (\<forall>ptr. redisGetError E2 (cacheKeyOf input2) = None
                      \<and> PutResultJSON E2 (jr_JobId req2) result = Inr ptr
                  \<longrightarrow> handler L E2 req2 w1 =
                        (Inr \<lparr>res_JobId = jr_JobId req2, res_Status = JOB_STATUS_SUCCEEDED,
                              res_ResultPtr = ptr, res_WorkerId = cfg_WorkerID E2,
                              res_ExecutionMs = elapsedMs E2,
                              res_ArtifactPtrs = (if pr_ArtifactPtr result \<noteq> []
                                                  then [pr_ArtifactPtr result] else [])\<rparr>,
                         w1\<lparr>results := results w1 @ [(jr_JobId req2, result)]\<rparr>)))"
proof -
  from handler_first_success [OF rt ctx1 first]
  obtain data r where c: "cache w1 (cacheKeyOf input1) = Some data"
      and u: "unmarshalPost L data = Inr r"
      and res: "results w1 = results w0 @ [(jr_JobId req1, r)]"
      and len: "length (posts w1) \<le> length (posts w0) + 1" by blast
  from same have key: "cacheKeyOf input2 = cacheKeyOf input1" by (simp add: cacheKeyOf_def)
  with c have hit: "cache w1 (cacheKeyOf input2) = Some data" by simp
  from first ctx1 have "TrimSpace (in_IncidentID (pi_Incident input1)) \<noteq> []"
    by (auto simp: handler_def split: if_splits)
  with same have id2: "TrimSpace (in_IncidentID (pi_Incident input2)) \<noteq> []" by simp
  have again: "handler L E2 req2 w1 =
       (Inr \<lparr>res_JobId = jr_JobId req2, res_Status = JOB_STATUS_SUCCEEDED,
             res_ResultPtr = ptr, res_WorkerId = cfg_WorkerID E2,
             res_ExecutionMs = elapsedMs E2,
             res_ArtifactPtrs = (if pr_ArtifactPtr r \<noteq> [] then [pr_ArtifactPtr r] else [])\<rparr>,
        w1\<lparr>results := results w1 @ [(jr_JobId req2, r)]\<rparr>)"
    if "redisGetError E2 (cacheKeyOf input2) = None" "PutResultJSON E2 (jr_JobId req2) r = Inr ptr" for ptr
    using handler_hit(4) [OF ctx2 hit id2 that(1) u] that(2) by (simp add: buildResult_def)
  from len handler_hit(1-3) [OF ctx2 hit] res again show ?thesis by blast
qed

theorem handler_idempotent_witness:
  "codecRoundTrip sampleLib
   \<and> handler sampleLib (sampleExt sampleHook (\<lambda>u. Inr ''art-9'')) (sampleRequest ''job-1'') emptyWorld
       = (Inr \<lparr>res_JobId = ''job-1'', res_Status = JOB_STATUS_SUCCEEDED, res_ResultPtr = ''res:job-1'',
               res_WorkerId = ''poster-local'', res_ExecutionMs = 12, res_ArtifactPtrs = [''art-9'']\<rparr>,
          sampleWorldAfterPost)
   \<and> length (posts sampleWorldAfterPost) \<le> length (posts emptyWorld) + 1
   \<and> handler sampleLib (sampleExt sampleHook (\<lambda>u. Inr ''art-9'')) (sampleRequest ''job-2'') sampleWorldAfterPost
       = (Inr \<lparr>res_JobId = ''job-2'', res_Status = JOB_STATUS_SUCCEEDED, res_ResultPtr = ''res:job-2'',
               res_WorkerId = ''poster-local'', res_ExecutionMs = 12, res_ArtifactPtrs = [''art-9'']\<rparr>,
          sampleWorldAfterPost\<lparr>results := [(''job-1'', samplePosted), (''job-2'', samplePosted)]\<rparr>)
   \<and> posts (snd (handler sampleLib (sampleExt sampleHook (\<lambda>u. Inr ''art-9'')) (sampleRequest ''job-2'')
                    sampleWorldAfterPost)) = [(sampleHook, ''Disk is full.'')]"
proof -
  let ?E = "sampleExt sampleHook (\<lambda>u. Inr ''art-9'')"
  let ?J1 = "\<lparr>res_JobId = ''job-1'', res_Status = JOB_STATUS_SUCCEEDED, res_ResultPtr = ''res:job-1'',
               res_WorkerId = ''poster-local'', res_ExecutionMs = 12, res_ArtifactPtrs = [''art-9'']\<rparr>"
  have rt: "codecRoundTrip sampleLib"
    by (auto simp: codecRoundTrip_def sampleLib_def split: if_splits)
  have ctx1: "GetContextJSON ?E (contextPtr (sampleRequest ''job-1'')) = Inr (samplePosterInput sampleHook)"
    and ctx2: "GetContextJSON ?E (contextPtr (sampleRequest ''job-2'')) = Inr (samplePosterInput sampleHook)"
    by (simp_all add: sampleExt_def sampleRequest_def contextPtr_def)
  have first: "handler sampleLib ?E (sampleRequest ''job-1'') emptyWorld = (Inr ?J1, sampleWorldAfterPost)"
    by (simp add: poster_eval str_eval Let_def)
  note t = handler_idempotent [OF rt ctx1 ctx2 refl first]
  from t have len: "length (posts sampleWorldAfterPost) \<le> length (posts emptyWorld) + 1" by blast
  from t have ps: "posts (snd (handler sampleLib ?E (sampleRequest ''job-2'') sampleWorldAfterPost))
      = posts sampleWorldAfterPost" by blast
  from t obtain result where r: "results sampleWorldAfterPost
        = results emptyWorld @ [(jr_JobId (sampleRequest ''job-1''), result)]"
      and again: "\<And>ptr. redisGetError ?E (cacheKeyOf (samplePosterInput sampleHook)) = None
                      \<and> PutResultJSON ?E (jr_JobId (sampleRequest ''job-2'')) result = Inr ptr
                  \<Longrightarrow> handler sampleLib ?E (sampleRequest ''job-2'') sampleWorldAfterPost =
                        (Inr \<lparr>res_JobId = jr_JobId (sampleRequest ''job-2''), res_Status = JOB_STATUS_SUCCEEDED,
                              res_ResultPtr = ptr, res_WorkerId = cfg_WorkerID ?E,
                              res_ExecutionMs = elapsedMs ?E,
                              res_ArtifactPtrs = (if pr_ArtifactPtr result \<noteq> []
                                                  then [pr_ArtifactPtr result] else [])\<rparr>,
                         sampleWorldAfterPost\<lparr>results := results sampleWorldAfterPost
                             @ [(jr_JobId (sampleRequest ''job-2''), result)]\<rparr>)"
    by blast
  from r have res: "result = samplePosted"
    by (simp add: sampleWorldAfterPost_def emptyWorld_def)
  have "redisGetError ?E (cacheKeyOf (samplePosterInput sampleHook)) = None
      \<and> PutResultJSON ?E (jr_JobId (sampleRequest ''job-2'')) result = Inr ''res:job-2''"
    by (simp add: sampleExt_def sampleRequest_def)
  from again [OF this]
  have second: "handler sampleLib ?E (sampleRequest ''job-2'') sampleWorldAfterPost
       = (Inr \<lparr>res_JobId = ''job-2'', res_Status = JOB_STATUS_SUCCEEDED, res_ResultPtr = ''res:job-2'',
               res_WorkerId = ''poster-local'', res_ExecutionMs = 12, res_ArtifactPtrs = [''art-9'']\<rparr>,
          sampleWorldAfterPost\<lparr>results := [(''job-1'', samplePosted), (''job-2'', samplePosted)]\<rparr>)"
    by (simp add: res sampleExt_def sampleRequest_def samplePosted_def sampleWorldAfterPost_def)
  from ps have ps': "posts (snd (handler sampleLib ?E (sampleRequest ''job-2'') sampleWorldAfterPost))
      = [(sampleHook, ''Disk is full.'')]"
    by (simp add: sampleWorldAfterPost_def)
  from rt first len second ps' show ?thesis by blast
qed

text \<open>
  \<^bold>\<open>C2.\<close> An invocation in slack mode whose resolved webhook the policy does not
  allow (\<^verbatim>\<open>HostAllowed\<close> answers \<^verbatim>\<open>false\<close> with no error) never calls the webhook
  sink; and when it reaches the policy check (the incident id is not blank, the
  cache has no entry, a webhook is resolved) it returns the error \<open>webhook host not
  allowed by policy\<close> and changes nothing.
\<close>

theorem handler_host_policy:
  assumes ctx: "GetContextJSON E (contextPtr req) = Inr input"
    and slack: "modeOf L input = ''slack''"
    and parse: "Parse L (jr_Env req) = Inr constraints"
    and refused: "HostAllowed L constraints (resolveWebhook E input) = Inr False"
  shows "posts (snd (handler L E req w)) = posts w
       \<and> (TrimSpace (in_IncidentID (pi_Incident input)) \<noteq> []
          \<and> getCachedPost L E w (cacheKeyOf input) = Inr None
          \<and> resolveWebhook E input \<noteq> []
          \<longrightarrow> handler L E req w = (Inl ''webhook host not allowed by policy'', w))"
proof (intro conjI impI)
  show "posts (snd (handler L E req w)) = posts w"
  proof (cases "TrimSpace (in_IncidentID (pi_Incident input)) = []")
    case True
    with ctx show ?thesis by (simp add: handler_def)
  next
    case id: False
    show ?thesis
    proof (cases "getCachedPost L E w (cacheKeyOf input)")
      case (Inl e)
      with ctx id show ?thesis by (simp add: handler_def)
    next
      case (Inr found)
      show ?thesis
      proof (cases found)
        case (Some cached)
        with Inr ctx id show ?thesis by (simp add: handler_def buildResult_frame)
      next
        case None
        with Inr have miss: "getCachedPost L E w (cacheKeyOf input) = Inr None" by simp
        show ?thesis
        proof (cases "resolveWebhook E input = []")
          case True
          then show ?thesis
            unfolding handler_miss [OF ctx id miss]
            by (simp add: slack postSlack_def Let_def)
        next
          case False
          then show ?thesis
            unfolding handler_miss [OF ctx id miss]
            by (simp add: slack postSlack_refused(2) [OF parse refused])
        qed
      qed
    qed
  qed
next
  assume a: "TrimSpace (in_IncidentID (pi_Incident input)) \<noteq> []
      \<and> getCachedPost L E w (cacheKeyOf input) = Inr None \<and> resolveWebhook E input \<noteq> []"
  then have id: "TrimSpace (in_IncidentID (pi_Incident input)) \<noteq> []"
    and miss: "getCachedPost L E w (cacheKeyOf input) = Inr None"
    and url: "resolveWebhook E input \<noteq> []" by simp_all
  show "handler L E req w = (Inl ''webhook host not allowed by policy'', w)"
    unfolding handler_miss [OF ctx id miss]
    by (simp add: slack postSlack_refused(2) [OF parse refused url])
qed

theorem handler_host_policy_witness:
  "modeOf sampleLib (samplePosterInput ''https://evil.example.com/hook'') = ''slack''
   \<and> HostAllowed sampleLib
        \<lparr>pc_MaxArtifactBytes = 1048576, pc_RedactionLevel = [], pc_AllowedHosts = [''hooks.slack.com'']\<rparr>
        ''https://evil.example.com/hook'' = Inr False
   \<and> handler sampleLib (sampleExt ''https://evil.example.com/hook'' (\<lambda>u. Inr ''art-9''))
        (sampleRequest ''job-1'') emptyWorld
       = (Inl ''webhook host not allowed by policy'', emptyWorld)
   \<and> posts (snd (handler sampleLib (sampleExt ''https://evil.example.com/hook'' (\<lambda>u. Inr ''art-9''))
                   (sampleRequest ''job-1'') emptyWorld)) = []"
proof -
  let ?U = "''https://evil.example.com/hook''"
  let ?E = "sampleExt ?U (\<lambda>u. Inr ''art-9'')"
  let ?C = "\<lparr>pc_MaxArtifactBytes = 1048576, pc_RedactionLevel = [], pc_AllowedHosts = [''hooks.slack.com'']\<rparr>"
  have ctx: "GetContextJSON ?E (contextPtr (sampleRequest ''job-1'')) = Inr (samplePosterInput ?U)"
    by (simp add: sampleExt_def sampleRequest_def contextPtr_def)
  have slack: "modeOf sampleLib (samplePosterInput ?U) = ''slack''"
    by (simp add: modeOf_def sampleLib_def samplePosterInput_def str_eval)
  have parse: "Parse sampleLib (jr_Env (sampleRequest ''job-1'')) = Inr ?C"
    by (simp add: sampleLib_def)
  have url: "resolveWebhook ?E (samplePosterInput ?U) = ?U"
    by (simp add: resolveWebhook_def samplePosterInput_def str_eval)
  have no: "HostAllowed sampleLib ?C ?U = Inr False"
    by (simp add: sampleLib_def)
  then have refused: "HostAllowed sampleLib ?C (resolveWebhook ?E (samplePosterInput ?U)) = Inr False"
    by (simp only: url)
  note t = handler_host_policy [OF ctx slack parse refused, of emptyWorld]
  have id: "TrimSpace (in_IncidentID (pi_Incident (samplePosterInput ?U))) \<noteq> []"
    by (simp add: samplePosterInput_def str_eval)
  have miss: "getCachedPost sampleLib ?E emptyWorld (cacheKeyOf (samplePosterInput ?U)) = Inr None"
    by (simp add: getCachedPost_def sampleExt_def emptyWorld_def)
  from t id miss url have a: "handler sampleLib ?E (sampleRequest ''job-1'') emptyWorld
       = (Inl ''webhook host not allowed by policy'', emptyWorld)" by simp
  from t have b: "posts (snd (handler sampleLib ?E (sampleRequest ''job-1'') emptyWorld)) = []"
    by (simp add: emptyWorld_def)
  from slack no a b show ?thesis by blast
qed

text \<open>
  \<^bold>\<open>C10.\<close> In slack mode the webhook call comes before the audit upload and the
  cache write. When the call succeeds and then the upload fails, or the upload
  succeeds and the cache write fails, the invocation returns an error, the sink has
  been called once and the cache is as it was; a later invocation for the same
  incident id that the policy allows then misses the cache and calls the sink again.
\<close>

theorem handler_partial_failure_reposts:
  assumes a1: "slackAllowed L E1 req1 input1"
    and miss: "cache w0 (cacheKeyOf input1) = None"
    and sink: "PostWebhook E1 (resolveWebhook E1 input1) (slackMessage input1) = Inr slackResult"
    and fail: "isl (Upload E1 (slackUpload L req1 input1))
             \<or> (\<exists>ptr. Upload E1 (slackUpload L req1 input1) = Inr ptr
                    \<and> cacheWriteFails L E1 (cacheKeyOf input1) (slackPosted E1 input1 slackResult ptr))"
    and a2: "slackAllowed L E2 req2 input2"
    and same: "in_IncidentID (pi_Incident input2) = in_IncidentID (pi_Incident input1)"
  shows "\<exists>e w1. handler L E1 req1 w0 = (Inl e, w1)
           \<and> cache w1 = cache w0
           \<and> posts w1 = posts w0 @ [(resolveWebhook E1 input1, slackMessage input1)]
           \<and> getCachedPost L E2 w1 (cacheKeyOf input2) = Inr None
           \<and> posts (snd (handler L E2 req2 w1))
               = posts w0 @ [(resolveWebhook E1 input1, slackMessage input1),
                             (resolveWebhook E2 input2, slackMessage input2)]"
proof -
  from a1 have ctx: "GetContextJSON E1 (contextPtr req1) = Inr input1"
    and id: "TrimSpace (in_IncidentID (pi_Incident input1)) \<noteq> []"
    and get: "redisGetError E1 (cacheKeyOf input1) = None"
    and slack: "modeOf L input1 = ''slack''"
    and url: "resolveWebhook E1 input1 \<noteq> []"
    by (simp_all add: slackAllowed_def)
  from a1 obtain constraints where p: "Parse L (jr_Env req1) = Inr constraints"
      and h: "HostAllowed L constraints (resolveWebhook E1 input1) = Inr True"
    by (auto simp: slackAllowed_def split: sum.splits)
  from get miss have m: "getCachedPost L E1 w0 (cacheKeyOf input1) = Inr None"
    by (rule getCachedPost_miss)
  define wp where "wp = w0\<lparr>posts := posts w0 @ [(resolveWebhook E1 input1, slackMessage input1)]\<rparr>"
  define wu where "wu = wp\<lparr>uploads := uploads wp @ [slackUpload L req1 input1]\<rparr>"
  have "\<exists>e. handler L E1 req1 w0 = (Inl e, wu)"
  proof (cases "Upload E1 (slackUpload L req1 input1)")
    case (Inl e)
    then have "handler L E1 req1 w0 = (Inl e, wu)"
      unfolding handler_miss [OF ctx id m]
      using url p h sink
      by (simp add: slack postSlack_def Let_def slackUpload_def wu_def wp_def)
    then show ?thesis by blast
  next
    case (Inr ptr)
    with fail have f: "cacheWriteFails L E1 (cacheKeyOf input1) (slackPosted E1 input1 slackResult ptr)"
      by auto
    then obtain e where "storeCachedPost L E1 wu (cacheKeyOf input1) (slackPosted E1 input1 slackResult ptr)
        = (Some e, wu)"
      by (auto simp: cacheWriteFails_def storeCachedPost_def split: sum.splits)
    with Inr have "handler L E1 req1 w0 = (Inl e, wu)"
      unfolding handler_miss [OF ctx id m]
      using url p h sink
      by (simp add: slack postSlack_def Let_def slackUpload_def slackPosted_def wu_def wp_def)
    then show ?thesis by blast
  qed
  then obtain e where first: "handler L E1 req1 w0 = (Inl e, wu)" by blast
  have c: "cache wu = cache w0" by (simp add: wu_def wp_def)
  have ps: "posts wu = posts w0 @ [(resolveWebhook E1 input1, slackMessage input1)]"
    by (simp add: wu_def wp_def)
  from same have key: "cacheKeyOf input2 = cacheKeyOf input1" by (simp add: cacheKeyOf_def)
  with miss c have miss2: "cache wu (cacheKeyOf input2) = None" by simp
  from a2 have "redisGetError E2 (cacheKeyOf input2) = None" by (simp add: slackAllowed_def)
  then have g2: "getCachedPost L E2 wu (cacheKeyOf input2) = Inr None"
    using miss2 by (rule getCachedPost_miss)
  from handler_allowed_posts [OF a2 miss2] ps
  have "posts (snd (handler L E2 req2 wu))
      = posts w0 @ [(resolveWebhook E1 input1, slackMessage input1),
                    (resolveWebhook E2 input2, slackMessage input2)]" by simp
  with first c ps g2 show ?thesis by blast
qed

theorem handler_partial_failure_reposts_witness:
  "slackAllowed sampleLib (sampleExt sampleHook (\<lambda>u. Inl ''artifact store down''))
     (sampleRequest ''job-1'') (samplePosterInput sampleHook)
   \<and> handler sampleLib (sampleExt sampleHook (\<lambda>u. Inl ''artifact store down''))
        (sampleRequest ''job-1'') emptyWorld
       = (Inl ''artifact store down'',
          emptyWorld\<lparr>posts := [(sampleHook, ''Disk is full.'')],
                      uploads := [UploadText ''Disk is full.'' ''text/plain'' ''audit''
                                    [(''kind'', ''post_payload''), (''incident_id'', ''INC-1'')] 1048576]\<rparr>)
   \<and> posts (snd (handler sampleLib (sampleExt sampleHook (\<lambda>u. Inr ''art-9'')) (sampleRequest ''job-2'')
        (emptyWorld\<lparr>posts := [(sampleHook, ''Disk is full.'')],
                      uploads := [UploadText ''Disk is full.'' ''text/plain'' ''audit''
                                    [(''kind'', ''post_payload''), (''incident_id'', ''INC-1'')] 1048576]\<rparr>)))
       = [(sampleHook, ''Disk is full.''), (sampleHook, ''Disk is full.'')]"
proof -
  let ?E1 = "sampleExt sampleHook (\<lambda>u. Inl ''artifact store down'')"
  let ?E2 = "sampleExt sampleHook (\<lambda>u. Inr ''art-9'')"
  let ?I = "samplePosterInput sampleHook"
  let ?W = "emptyWorld\<lparr>posts := [(sampleHook, ''Disk is full.'')],
                      uploads := [UploadText ''Disk is full.'' ''text/plain'' ''audit''
                                    [(''kind'', ''post_payload''), (''incident_id'', ''INC-1'')] 1048576]\<rparr>"
  have url: "resolveWebhook (sampleExt sampleHook store) ?I = sampleHook" for store
    by (simp add: resolveWebhook_def samplePosterInput_def sampleExt_def sampleHook_def str_eval)
  have msg: "slackMessage ?I = ''Disk is full.''"
    by (simp add: slackMessage_def samplePosterInput_def str_eval)
  have a: "slackAllowed sampleLib (sampleExt sampleHook store) (sampleRequest job) ?I" for store job
    unfolding slackAllowed_def url
    by (simp add: sampleExt_def sampleRequest_def contextPtr_def samplePosterInput_def
        cacheKeyOf_def modeOf_def sampleLib_def sampleHook_def str_eval)
  have miss: "cache emptyWorld (cacheKeyOf ?I) = None" by (simp add: emptyWorld_def)
  have sink: "PostWebhook ?E1 (resolveWebhook ?E1 ?I) (slackMessage ?I)
      = Inr (Some \<lparr>sl_Ok = True, sl_Channel = ''ops'', sl_TS = ''1'', sl_Permalink = []\<rparr>)"
    by (simp add: sampleExt_def)
  have fail: "isl (Upload ?E1 (slackUpload sampleLib (sampleRequest ''job-1'') ?I))
      \<or> (\<exists>ptr. Upload ?E1 (slackUpload sampleLib (sampleRequest ''job-1'') ?I) = Inr ptr
             \<and> cacheWriteFails sampleLib ?E1 (cacheKeyOf ?I)
                  (slackPosted ?E1 ?I (Some \<lparr>sl_Ok = True, sl_Channel = ''ops'', sl_TS = ''1'', sl_Permalink = []\<rparr>) ptr))"
    by (simp add: sampleExt_def)
  from handler_partial_failure_reposts
    [OF a [of "\<lambda>u. Inl ''artifact store down''" "''job-1''"] miss sink fail
        a [of "\<lambda>u. Inr ''art-9''" "''job-2''"] refl]
  obtain e w1 where first: "handler sampleLib ?E1 (sampleRequest ''job-1'') emptyWorld = (Inl e, w1)"
      and second: "posts (snd (handler sampleLib ?E2 (sampleRequest ''job-2'') w1))
        = posts emptyWorld @ [(resolveWebhook ?E1 ?I, slackMessage ?I), (resolveWebhook ?E2 ?I, slackMessage ?I)]"
    by blast
  have run: "handler sampleLib ?E1 (sampleRequest ''job-1'') emptyWorld = (Inl ''artifact store down'', ?W)"
    by (simp add: poster_eval str_eval Let_def)
  with first have "w1 = ?W" by simp
  with second have "posts (snd (handler sampleLib ?E2 (sampleRequest ''job-2'') ?W))
      = [(sampleHook, ''Disk is full.''), (sampleHook, ''Disk is full.'')]"
    by (simp add: url msg emptyWorld_def)
  with a [of "\<lambda>u. Inl ''artifact store down''" "''job-1''"] run show ?thesis by blast
qed

section \<open>Properties of the evidence collection\<close>

lemma collectLoop_count:
  "int (length out) \<le> maxItems \<Longrightarrow> int (length (collectLoop E maxItems maxBytes items out totalBytes)) \<le> maxItems"
proof (induction items arbitrary: out totalBytes)
  case Nil
  then show ?case by simp
next
  case (Cons item items)
  show ?case
  proof (cases "ei_ArtifactPtr item = [] \<or> int (length out) \<ge> maxItems \<or> totalBytes \<ge> maxBytes")
    case True
    with Cons show ?thesis by auto
  next
    case False
    then have room: "int (length out) < maxItems" by simp
    have grow: "int (length (out @ [t])) \<le> maxItems" for t using room by simp
    from False Cons.prems show ?thesis
      by (auto simp: Let_def Cons.IH grow simp del: length_append split: sum.splits prod.splits)
  qed
qed

lemma collectLoop_bytes:
  "totalBytes = contentBytes out \<Longrightarrow> totalBytes \<le> maxBytes
   \<Longrightarrow> contentBytes (collectLoop E maxItems maxBytes items out totalBytes) \<le> maxBytes"
proof (induction items arbitrary: out totalBytes)
  case Nil
  then show ?case by simp
next
  case (Cons item items)
  have step: "contentBytes (collectLoop E maxItems maxBytes items (out @ [t]) (totalBytes + int (length (et_Content t))))
      \<le> maxBytes"
    if "int (length (et_Content t)) \<le> maxBytes - totalBytes" for t
  proof (rule Cons.IH)
    show "totalBytes + int (length (et_Content t)) = contentBytes (out @ [t])"
      using Cons.prems(1) by (simp add: contentBytes_def)
    show "totalBytes + int (length (et_Content t)) \<le> maxBytes" using that by simp
  qed
  have skip: "contentBytes (collectLoop E maxItems maxBytes items out totalBytes) \<le> maxBytes"
    using Cons.prems by (rule Cons.IH)
  have stop: "contentBytes out \<le> maxBytes" using Cons.prems by simp
  have keep: "contentBytes (collectLoop E maxItems maxBytes items
        (out @ [\<lparr>et_Kind = k, et_Title = ti, et_ArtifactPtr = ap, et_ContentType = ct,
                  et_Content = truncateToBytes s (maxBytes - totalBytes)\<rparr>])
        (totalBytes + int (length (truncateToBytes s (maxBytes - totalBytes))))) \<le> maxBytes"
    if "\<not> maxBytes - totalBytes \<le> 0" for k ti ap ct s
  proof -
    from that have "int (length (truncateToBytes s (maxBytes - totalBytes))) \<le> maxBytes - totalBytes"
      by (intro truncateToBytes_length) simp
    then show ?thesis
      using step [of "\<lparr>et_Kind = k, et_Title = ti, et_ArtifactPtr = ap, et_ContentType = ct,
                  et_Content = truncateToBytes s (maxBytes - totalBytes)\<rparr>"] by simp
  qed
  show ?case
    unfolding collectLoop.simps Let_def
    using skip stop keep
    by (simp split: sum.splits prod.splits)
qed

lemma collectLoop_order:
  "\<exists>new. collectLoop E maxItems maxBytes items out totalBytes = out @ new
         \<and> subseq (map textKey new) (map itemKey items)"
proof (induction items arbitrary: out totalBytes)
  case Nil
  then show ?case by simp
next
  case (Cons item items)
  have skip: "\<exists>new. collectLoop E maxItems maxBytes items out totalBytes = out @ new
         \<and> subseq (map textKey new) (map itemKey (item # items))"
    using Cons.IH [of out totalBytes] by (auto intro: list_emb_Cons)
  have stop: "\<exists>new. out = out @ new \<and> subseq (map textKey new) (map itemKey (item # items))"
    by (intro exI [of _ "[]"]) simp
  have keep: "\<exists>new. collectLoop E maxItems maxBytes items (out @ [t]) total2 = out @ new
         \<and> subseq (map textKey new) (map itemKey (item # items))"
    if "textKey t = itemKey item" for t total2
  proof -
    from Cons.IH [of "out @ [t]" total2] obtain new
      where n: "collectLoop E maxItems maxBytes items (out @ [t]) total2 = (out @ [t]) @ new"
        "subseq (map textKey new) (map itemKey items)" by blast
    from n(2) that have "subseq (map textKey (t # new)) (map itemKey (item # items))" by simp
    with n(1) show ?thesis by (intro exI [of _ "t # new"]) simp
  qed
  have key: "textKey \<lparr>et_Kind = ei_Kind item, et_Title = ei_Title item,
      et_ArtifactPtr = ei_ArtifactPtr item, et_ContentType = ct, et_Content = c\<rparr> = itemKey item" for ct c
    by (simp add: textKey_def itemKey_def)
  show ?case
    unfolding collectLoop.simps Let_def
    using skip stop keep [OF key]
    by (simp split: sum.splits prod.splits)
qed

text \<open>
  \<^bold>\<open>C8.\<close> For every bundle and positive budgets, \<open>collectEvidenceText\<close> returns at
  most \<open>maxItems\<close> items whose contents together are at most \<open>maxBytes\<close> bytes, and
  the items returned are, in order, a subsequence of the bundle's items. The
  specification's two examples (ten items of 1000 bytes under the budgets 3 and
  500000, and 100 and 1500) are instances.
\<close>

theorem collectEvidenceText_budgets:
  assumes "0 < maxItems" and "0 < maxBytes"
  shows "int (length (collectEvidenceText E bundle maxItems maxBytes)) \<le> maxItems
       \<and> contentBytes (collectEvidenceText E bundle maxItems maxBytes) \<le> maxBytes
       \<and> subseq (map textKey (collectEvidenceText E bundle maxItems maxBytes))
                 (map itemKey (b_Evidence bundle))"
proof (intro conjI)
  from assms have c: "collectEvidenceText E bundle maxItems maxBytes
      = collectLoop E maxItems maxBytes (b_Evidence bundle) [] 0"
    by (simp add: collectEvidenceText_def)
  show "int (length (collectEvidenceText E bundle maxItems maxBytes)) \<le> maxItems"
    unfolding c using assms(1) by (intro collectLoop_count) simp
  show "contentBytes (collectEvidenceText E bundle maxItems maxBytes) \<le> maxBytes"
    unfolding c using assms(2) by (intro collectLoop_bytes) (simp_all add: contentBytes_def)
  from collectLoop_order [of E maxItems maxBytes "b_Evidence bundle" "[]" 0]
  show "subseq (map textKey (collectEvidenceText E bundle maxItems maxBytes))
                 (map itemKey (b_Evidence bundle))"
    unfolding c by auto
qed

theorem collectEvidenceText_budgets_witness:
  "int (length (collectEvidenceText (sampleSumEnv 1000) (sampleBundle 10) 3 500000)) \<le> 3
   \<and> contentBytes (collectEvidenceText (sampleSumEnv 1000) (sampleBundle 10) 100 1500) \<le> 1500
   \<and> subseq (map textKey (collectEvidenceText (sampleSumEnv 1000) (sampleBundle 10) 100 1500))
             (map itemKey (b_Evidence (sampleBundle 10)))
   \<and> map (\<lambda>t. (et_ArtifactPtr t, et_Content t))
          (collectEvidenceText (sampleSumEnv 10) (sampleBundle 3) 100 15)
       = [(''art-0'', ''xxxxxxxxxx''), (''art-1'', ''xxxxx'')]"
proof -
  have a: "int (length (collectEvidenceText (sampleSumEnv 1000) (sampleBundle 10) 3 500000)) \<le> 3"
    using collectEvidenceText_budgets [of 3 500000 "sampleSumEnv 1000" "sampleBundle 10"] by simp
  have b: "contentBytes (collectEvidenceText (sampleSumEnv 1000) (sampleBundle 10) 100 1500) \<le> 1500
      \<and> subseq (map textKey (collectEvidenceText (sampleSumEnv 1000) (sampleBundle 10) 100 1500))
             (map itemKey (b_Evidence (sampleBundle 10)))"
    using collectEvidenceText_budgets [of 100 1500 "sampleSumEnv 1000" "sampleBundle 10"] by simp
  have c: "map (\<lambda>t. (et_ArtifactPtr t, et_Content t))
          (collectEvidenceText (sampleSumEnv 10) (sampleBundle 3) 100 15)
       = [(''art-0'', ''xxxxxxxxxx''), (''art-1'', ''xxxxx'')]"
    by code_simp
  from a b c show ?thesis by blast
qed

end
